theory Spec2Isabelle
  imports Main "HOL-Library.Sublist"
begin

section \<open>Errors\<close>

text \<open>
  The package builds its errors with \<open>fmt.Errorf\<close>; an error made by a collaborator
  (net/http, encoding/json, os, yaml) is passed on as it is. One constructor stands for
  each \<open>fmt.Errorf\<close> of the source, a wrapped error (\<open>%w\<close>) is an argument:
  \<^item> \<open>External m\<close>: an error of a collaborator whose message is \<open>m\<close>;
  \<^item> \<open>Unsupported_provider n\<close>: "unsupported provider: %s" (factory.go 37, 55);
  \<^item> \<open>Already_registered n\<close>: "provider %s already registered" (factory.go 70);
  \<^item> \<open>Connect_failed e\<close>: "failed to connect to Ollama: %w" (ollama.go 49);
  \<^item> \<open>Detect_dimension_failed e\<close>: "failed to detect embedding dimension: %w" (ollama.go 54);
  \<^item> \<open>Embed_at_index_failed i e\<close>: "failed to embed text at index %d: %w" (ollama.go 83);
  \<^item> \<open>Embed_text_failed e\<close>: "failed to embed text: %w" (ollama.go 165);
  \<^item> \<open>Health_check_failed c\<close>: "ollama health check failed: HTTP %d" (ollama.go 148);
  \<^item> \<open>HTTP_error c b\<close>: "HTTP %d: %s" (ollama.go 212).
\<close>

datatype error =
    External string
  | Unsupported_provider string
  | Already_registered string
  | Connect_failed error
  | Detect_dimension_failed error
  | Embed_at_index_failed nat error
  | Embed_text_failed error
  | Health_check_failed nat
  | HTTP_error nat string

text \<open>The verb \<open>%d\<close> on a number that is not negative: its decimal digits.\<close>

function itoa :: "nat \<Rightarrow> string" where
  "itoa n = (if n < 10 then [''0123456789'' ! n]
             else itoa (n div 10) @ [''0123456789'' ! (n mod 10)])"
  by pat_completeness auto
termination
  by (relation "measure id") auto

declare itoa.simps [simp del]

text \<open>The method \<open>Error()\<close>: the message a caller of the package reads.\<close>

fun Error_string :: "error \<Rightarrow> string" where
  "Error_string (External m) = m"
| "Error_string (Unsupported_provider n) = ''unsupported provider: '' @ n"
| "Error_string (Already_registered n) = ''provider '' @ n @ '' already registered''"
| "Error_string (Connect_failed e) = ''failed to connect to Ollama: '' @ Error_string e"
| "Error_string (Detect_dimension_failed e) =
     ''failed to detect embedding dimension: '' @ Error_string e"
| "Error_string (Embed_at_index_failed i e) =
     ''failed to embed text at index '' @ itoa i @ '': '' @ Error_string e"
| "Error_string (Embed_text_failed e) = ''failed to embed text: '' @ Error_string e"
| "Error_string (Health_check_failed c) = ''ollama health check failed: HTTP '' @ itoa c"
| "Error_string (HTTP_error c b) = ''HTTP '' @ itoa c @ '': '' @ b"

section \<open>Logger (logger.go)\<close>

text \<open>
  A logger holds its name. A field is a key with a value of any type; the package
  logs strings, integers and errors. The message literals of the source are not
  ASCII; each is one constructor of \<open>message\<close>, named by the place that logs it:
  \<^item> \<open>Msg_creating\<close>: factory.go 44 and 58 (an embedding service is being created);
  \<^item> \<open>Msg_registered\<close>: factory.go 74 (a new provider is registered);
  \<^item> \<open>Msg_initialised\<close>: ollama.go 57 (the Ollama backend is ready);
  \<^item> \<open>Msg_embed_start\<close>: ollama.go 71; \<open>Msg_embed_failed\<close>: ollama.go 79;
    \<open>Msg_embed_done\<close>: ollama.go 88;
  \<^item> \<open>Msg_dimension_detected\<close>: ollama.go 186;
  \<^item> \<open>Msg_close_failed\<close>: ollama.go 225 (closing the response body failed).
\<close>

datatype Logger = Logger (logger_name: string)

datatype field_value = String_value string | Int_value int | Error_value error

datatype Field = Field (Key: string) (Value: field_value)

definition String_field :: "string \<Rightarrow> string \<Rightarrow> Field" where
  "String_field key v = Field key (String_value v)"

definition Int_field :: "string \<Rightarrow> int \<Rightarrow> Field" where
  "Int_field key v = Field key (Int_value v)"

definition Error_field :: "error \<Rightarrow> Field" where
  "Error_field err = Field ''error'' (Error_value err)"

definition NewLogger :: "string \<Rightarrow> Logger" where
  "NewLogger n = Logger n"

datatype message =
    Msg_creating
  | Msg_registered
  | Msg_initialised
  | Msg_embed_start
  | Msg_embed_failed
  | Msg_embed_done
  | Msg_dimension_detected
  | Msg_close_failed

record log_entry =
  entry_level :: string
  entry_logger :: string
  entry_msg :: message
  entry_fields :: "Field list"

section \<open>The world outside the package\<close>

text \<open>
  What the package does to the outside is kept in \<open>world\<close>: the requests it has handed
  to the HTTP client, oldest first, and the lines it has handed to the standard logger
  (\<open>log.Println\<close>), oldest first, each as the arguments of \<open>Logger.log\<close> (the layout
  of the line and its time stamp are the standard library's).
\<close>

datatype ollamaEmbedRequest = ollamaEmbedRequest (req_Model: string) (Prompt: string)

datatype request = GET string | POST string ollamaEmbedRequest

record world =
  calls :: "request list"
  logs :: "log_entry list"

text \<open>\<open>Logger.log\<close>, and the four levels above it. \<open>Debug\<close> logs only when the
  environment variable DEBUG is not empty; its value is the first argument.\<close>

definition log :: "Logger \<Rightarrow> string \<Rightarrow> message \<Rightarrow> Field list \<Rightarrow> world \<Rightarrow> world" where
  "log l lvl m fs w =
     w\<lparr>logs := logs w @ [\<lparr>entry_level = lvl, entry_logger = logger_name l, entry_msg = m,
                           entry_fields = fs\<rparr>]\<rparr>"

definition Info :: "Logger \<Rightarrow> message \<Rightarrow> Field list \<Rightarrow> world \<Rightarrow> world" where
  "Info l m fs w = log l ''INFO'' m fs w"

definition Error :: "Logger \<Rightarrow> message \<Rightarrow> Field list \<Rightarrow> world \<Rightarrow> world" where
  "Error l m fs w = log l ''ERROR'' m fs w"

definition Debug :: "string \<Rightarrow> Logger \<Rightarrow> message \<Rightarrow> Field list \<Rightarrow> world \<Rightarrow> world" where
  "Debug debug_env l m fs w = (if debug_env \<noteq> '''' then log l ''DEBUG'' m fs w else w)"

definition Warn :: "Logger \<Rightarrow> message \<Rightarrow> Field list \<Rightarrow> world \<Rightarrow> world" where
  "Warn l m fs w = log l ''WARN'' m fs w"

section \<open>Configuration (factory.go 212-228)\<close>

text \<open>
  \<open>Timeout\<close> is a \<open>time.Duration\<close>: a number of nanoseconds. \<open>Options\<close> is a Go map,
  which may be nil (\<open>None\<close>); its values are of any type (\<open>'v\<close>).

  \<open>DefaultConfig\<close> is a package variable. The package initialises it and never
  assigns to it or to one of its fields, so its four scalar fields are fixed; what can
  change is the content of the map that its field \<open>Options\<close> points to, since
  \<open>NewConfig\<close> hands out a copy of the struct that shares this map. The value of the
  variable is therefore a function of the present content of that map, which is empty
  when the package is initialised; every function that reads the variable takes this
  content as its argument \<open>default_options\<close>.
\<close>

record 'v Config =
  Provider :: string
  BaseURL :: string
  Model :: string
  Timeout :: int
  Options :: "(string \<rightharpoonup> 'v) option"

definition Second :: int where
  "Second = 1000000000"

definition DefaultConfig :: "(string \<rightharpoonup> 'v) \<Rightarrow> 'v Config" where
  "DefaultConfig default_options =
     \<lparr>Provider = ''ollama'', BaseURL = ''http://localhost:11434'', Model = ''qwen2.5:7b'',
      Timeout = 30 * Second, Options = Some default_options\<rparr>"

section \<open>The Ollama backend (ollama.go)\<close>

text \<open>
  The struct \<open>OllamaEmbedder\<close>; of its HTTP client only the timeout is set. The methods
  have a pointer receiver, so each takes the embedder with the world and returns both.
\<close>

record OllamaEmbedder =
  baseURL :: string
  model :: string
  httpClient_Timeout :: int
  dimension :: int
  logger :: Logger

type_synonym state = "OllamaEmbedder \<times> world"

text \<open>
  The collaborators. \<open>transport\<close> is \<open>http.NewRequestWithContext\<close> followed by
  \<open>httpClient.Do\<close> and the reading of the body: given the requests made before and the
  request, it answers with the error of one of the two calls (\<open>Inl\<close>; the context's
  cancellation and the client's timeout are such errors) or with a response: its status
  code, the bytes \<open>io.ReadAll\<close> reads from its body, the error of \<open>io.ReadAll\<close> and the
  error of \<open>Body.Close\<close>, if any. \<open>json_Unmarshal\<close> decodes a body into the field
  \<open>Embedding\<close> of an \<open>ollamaEmbedResponse\<close>; \<open>float32\<close> is the conversion from
  float64; \<open>DEBUG\<close> is the environment variable. \<open>json.Marshal\<close> of an
  \<open>ollamaEmbedRequest\<close> (two strings) does not fail, so a request is recorded by its
  data.
\<close>

datatype response =
  Response (StatusCode: nat) (Body: string) (read_error: "string option") (close_error: "string option")

record ('d, 's) env =
  transport :: "request list \<Rightarrow> request \<Rightarrow> string + response"
  json_Unmarshal :: "string \<Rightarrow> string + 'd list"
  float32 :: "'d \<Rightarrow> 's"
  DEBUG :: string

text \<open>\<open>strings.TrimSuffix\<close>.\<close>

definition TrimSuffix :: "string \<Rightarrow> string \<Rightarrow> string" where
  "TrimSuffix s suf =
     (if length suf \<le> length s \<and> drop (length s - length suf) s = suf
      then take (length s - length suf) s else s)"

definition closeResponse :: "response \<Rightarrow> state \<Rightarrow> state" where
  "closeResponse resp s =
     (case s of (e, w) \<Rightarrow>
        (case close_error resp of
           None \<Rightarrow> (e, w)
         | Some err \<Rightarrow> (e, Warn (logger e) Msg_close_failed [Error_field (External err)] w)))"

text \<open>\<open>makeRequest\<close>, for the one request and response type it is called with. The
  deferred \<open>closeResponse\<close> runs when the function returns; nothing else logs in
  between.\<close>

definition makeRequest ::
  "('d, 's) env \<Rightarrow> string \<Rightarrow> ollamaEmbedRequest \<Rightarrow> state \<Rightarrow> (error + 'd list) \<times> state" where
  "makeRequest env url reqData s =
     (case s of (e, w) \<Rightarrow>
        (let req = POST url reqData;
             w1 = w\<lparr>calls := calls w @ [req]\<rparr>
         in case transport env (calls w) req of
              Inl err \<Rightarrow> (Inl (External err), (e, w1))
            | Inr resp \<Rightarrow>
                (let s2 = closeResponse resp (e, w1)
                 in if StatusCode resp \<ge> 400
                    then (Inl (HTTP_error (StatusCode resp) (Body resp)), s2)
                    else (case read_error resp of
                            Some err \<Rightarrow> (Inl (External err), s2)
                          | None \<Rightarrow>
                              (case json_Unmarshal env (Body resp) of
                                 Inl err \<Rightarrow> (Inl (External err), s2)
                               | Inr embedding \<Rightarrow> (Inr embedding, s2))))))"

definition embedSingle ::
  "('d, 's) env \<Rightarrow> string \<Rightarrow> state \<Rightarrow> (error + 's list) \<times> state" where
  "embedSingle env text s =
     (let url = baseURL (fst s) @ ''/api/embeddings'';
          reqData = ollamaEmbedRequest (model (fst s)) text
      in case makeRequest env url reqData s of
           (Inl err, s1) \<Rightarrow> (Inl (Embed_text_failed err), s1)
         | (Inr embedding, s1) \<Rightarrow> (Inr (map (float32 env) embedding), s1))"

definition EmbedSingle ::
  "('d, 's) env \<Rightarrow> string \<Rightarrow> state \<Rightarrow> (error + 's list) \<times> state" where
  "EmbedSingle env text s = embedSingle env text s"

definition Health :: "('d, 's) env \<Rightarrow> state \<Rightarrow> error option \<times> state" where
  "Health env s =
     (case s of (e, w) \<Rightarrow>
        (let url = baseURL e @ ''/api/version'';
             req = GET url;
             w1 = w\<lparr>calls := calls w @ [req]\<rparr>
         in case transport env (calls w) req of
              Inl err \<Rightarrow> (Some (External err), (e, w1))
            | Inr resp \<Rightarrow>
                (let s2 = closeResponse resp (e, w1)
                 in if StatusCode resp \<noteq> 200
                    then (Some (Health_check_failed (StatusCode resp)), s2)
                    else (None, s2))))"

definition detectDimension :: "('d, 's) env \<Rightarrow> state \<Rightarrow> error option \<times> state" where
  "detectDimension env s =
     (case embedSingle env ''test'' s of
        (Inl err, s1) \<Rightarrow> (Some err, s1)
      | (Inr embedding, (e1, w1)) \<Rightarrow>
          (let e2 = e1\<lparr>dimension := int (length embedding)\<rparr>
           in (None, (e2, Debug (DEBUG env) (logger e2) Msg_dimension_detected
                            [Int_field ''dimension'' (dimension e2)] w1))))"

definition NewOllamaEmbedder ::
  "('d, 's) env \<Rightarrow> 'v Config \<Rightarrow> world \<Rightarrow> (error + OllamaEmbedder) \<times> world" where
  "NewOllamaEmbedder env config w =
     (let lg = NewLogger ''ollama-embedder'';
          embedder = \<lparr>baseURL = TrimSuffix (BaseURL config) ''/'', model = Model config,
                      httpClient_Timeout = Timeout config, dimension = 0, logger = lg\<rparr>
      in case Health env (embedder, w) of
           (Some err, (e1, w1)) \<Rightarrow> (Inl (Connect_failed err), w1)
         | (None, s1) \<Rightarrow>
             (case detectDimension env s1 of
                (Some err, (e2, w2)) \<Rightarrow> (Inl (Detect_dimension_failed err), w2)
              | (None, (e2, w2)) \<Rightarrow>
                  (Inr e2, Info lg Msg_initialised
                             [String_field ''base_url'' (BaseURL config),
                              String_field ''model'' (Model config),
                              Int_field ''dimension'' (dimension e2)] w2)))"

definition getTextPreview :: "string \<Rightarrow> string" where
  "getTextPreview text = (if length text \<le> 50 then text else take 47 text @ ''...'')"

text \<open>
  \<open>Embed\<close>. A slice is modelled by the sequence of its elements (a nil slice and an
  empty one are both \<open>[]\<close>); a failure returns no slice at all. The loop over
  \<open>range texts\<close> carries the index, the texts still to embed and \<open>allEmbeddings\<close>.
\<close>

fun Embed_loop ::
  "('d, 's) env \<Rightarrow> nat \<Rightarrow> string list \<Rightarrow> 's list list \<Rightarrow> state
     \<Rightarrow> (error + 's list list) \<times> state" where
  "Embed_loop env i [] allEmbeddings s = (Inr allEmbeddings, s)"
| "Embed_loop env i (text # rest) allEmbeddings s =
     (case embedSingle env text s of
        (Inl err, (e1, w1)) \<Rightarrow>
          (Inl (Embed_at_index_failed i err),
           (e1, Error (logger e1) Msg_embed_failed
                  [Error_field err, Int_field ''index'' (int i),
                   String_field ''text_preview'' (getTextPreview text)] w1))
      | (Inr embedding, s1) \<Rightarrow> Embed_loop env (Suc i) rest (allEmbeddings @ [embedding]) s1)"

definition Embed ::
  "('d, 's) env \<Rightarrow> string list \<Rightarrow> state \<Rightarrow> (error + 's list list) \<times> state" where
  "Embed env texts s =
     (if length texts = 0 then (Inr [], s)
      else (case s of (e, w) \<Rightarrow>
        (let w1 = Debug (DEBUG env) (logger e) Msg_embed_start
                    [Int_field ''count'' (int (length texts))] w
         in case Embed_loop env 0 texts [] (e, w1) of
              (Inl err, s2) \<Rightarrow> (Inl err, s2)
            | (Inr allEmbeddings, (e2, w2)) \<Rightarrow>
                (Inr allEmbeddings,
                 (e2, Debug (DEBUG env) (logger e2) Msg_embed_done
                        [Int_field ''count'' (int (length allEmbeddings))] w2)))))"

text \<open>
  \<open>BatchEmbed\<close>. After the adjustment of a \<open>batchSize \<le> 0\<close> the batch size is not
  negative, so \<open>i\<close> and \<open>end\<close> are counted in \<open>nat\<close>. Go's \<open>int\<close> does not wrap here:
  the loop body runs with \<open>i < len(texts)\<close>, and either \<open>i = 0\<close> or
  \<open>batchSize < len(texts)\<close>, so \<open>i + batchSize\<close> stays below \<open>2 * len(texts)\<close> or is
  \<open>batchSize\<close> itself. With \<open>i < end \<le> len(texts)\<close> the slice \<open>texts[i:end]\<close> is in
  range. The loop as such need not end (a batch size of 0 never advances), so it is a
  partial function: \<open>None\<close> is a loop that runs forever.
\<close>

partial_function (option) BatchEmbed_loop ::
  "('d, 's) env \<Rightarrow> string list \<Rightarrow> nat \<Rightarrow> nat \<Rightarrow> 's list list \<Rightarrow> state
     \<Rightarrow> ((error + 's list list) \<times> state) option" where
  "BatchEmbed_loop env texts batchSize i allEmbeddings s =
     (if i < length texts
      then (let end' = (if i + batchSize > length texts then length texts else i + batchSize);
                batch = take (end' - i) (drop i texts)
            in case Embed env batch s of
                 (Inl err, s1) \<Rightarrow> Some (Inl err, s1)
               | (Inr embeddings, s1) \<Rightarrow>
                   BatchEmbed_loop env texts batchSize (i + batchSize)
                     (allEmbeddings @ embeddings) s1)
      else Some (Inr allEmbeddings, s))"

definition BatchEmbed ::
  "('d, 's) env \<Rightarrow> string list \<Rightarrow> int \<Rightarrow> state \<Rightarrow> ((error + 's list list) \<times> state) option" where
  "BatchEmbed env texts batchSize s =
     BatchEmbed_loop env texts (if batchSize \<le> 0 then length texts else nat batchSize) 0 [] s"

definition GetDimension :: "OllamaEmbedder \<Rightarrow> int" where
  "GetDimension e = dimension e"

definition GetModel :: "OllamaEmbedder \<Rightarrow> string" where
  "GetModel e = model e"

text \<open>
  A caller of a ready backend makes calls one after the other; \<open>run_operations\<close> is
  such a caller. \<open>None\<close> is a call that does not return.
\<close>

datatype operation =
    Op_Embed "string list"
  | Op_EmbedSingle string
  | Op_BatchEmbed "string list" int
  | Op_GetDimension
  | Op_GetModel
  | Op_Health

fun call_operation :: "('d, 's) env \<Rightarrow> operation \<Rightarrow> state \<Rightarrow> state option" where
  "call_operation env (Op_Embed texts) s = Some (snd (Embed env texts s))"
| "call_operation env (Op_EmbedSingle text) s = Some (snd (EmbedSingle env text s))"
| "call_operation env (Op_BatchEmbed texts batchSize) s =
     map_option snd (BatchEmbed env texts batchSize s)"
| "call_operation env Op_GetDimension s = Some s"
| "call_operation env Op_GetModel s = Some s"
| "call_operation env Op_Health s = Some (snd (Health env s))"

fun run_operations :: "('d, 's) env \<Rightarrow> operation list \<Rightarrow> state \<Rightarrow> state option" where
  "run_operations env [] s = Some s"
| "run_operations env (x # xs) s =
     (case call_operation env x s of None \<Rightarrow> None | Some s1 \<Rightarrow> run_operations env xs s1)"

section \<open>The provider registry (factory.go)\<close>

text \<open>
  A value of the interface \<open>Embedder\<close> is the Ollama backend or a backend of another
  package (\<open>'b\<close>). A \<open>ProviderFunc\<close> may talk to the world. The lock of the factory
  orders concurrent calls; the model is of one call at a time. The struct's field
  \<open>logger\<close> is \<open>flogger\<close> here.
\<close>

datatype 'b Embedder = Ollama OllamaEmbedder | Other 'b

type_synonym ('v, 'b) ProviderFunc = "'v Config \<Rightarrow> world \<Rightarrow> (error + 'b Embedder) \<times> world"

record ('v, 'b) Factory =
  providers :: "string \<rightharpoonup> ('v, 'b) ProviderFunc"
  flogger :: Logger

definition RegisterProvider ::
  "string \<Rightarrow> ('v, 'b) ProviderFunc \<Rightarrow> ('v, 'b) Factory \<times> world
     \<Rightarrow> error option \<times> ('v, 'b) Factory \<times> world" where
  "RegisterProvider n provider fw =
     (case fw of (f, w) \<Rightarrow>
        (case providers f n of
           Some _ \<Rightarrow> (Some (Already_registered n), (f, w))
         | None \<Rightarrow>
             (None, (f\<lparr>providers := (providers f)(n \<mapsto> provider)\<rparr>,
                     Info (flogger f) Msg_registered [String_field ''name'' n] w))))"

text \<open>The constructor that \<open>NewFactory\<close> registers: the closure around
  \<open>NewOllamaEmbedder\<close>.\<close>

definition ollama_provider :: "('d, 's) env \<Rightarrow> ('v, 'b) ProviderFunc" where
  "ollama_provider env config w =
     (case NewOllamaEmbedder env config w of
        (Inl err, w1) \<Rightarrow> (Inl err, w1)
      | (Inr e, w1) \<Rightarrow> (Inr (Ollama e), w1))"

definition NewFactory :: "('d, 's) env \<Rightarrow> world \<Rightarrow> ('v, 'b) Factory \<times> world" where
  "NewFactory env w =
     (let factory = \<lparr>providers = Map.empty, flogger = NewLogger ''embedder-factory''\<rparr>
      in snd (RegisterProvider ''ollama'' (ollama_provider env) (factory, w)))"

definition Create ::
  "(string \<rightharpoonup> 'v) \<Rightarrow> string \<Rightarrow> ('v, 'b) Factory \<Rightarrow> world
     \<Rightarrow> (error + 'b Embedder) \<times> world" where
  "Create default_options provider f w =
     (case providers f provider of
        None \<Rightarrow> (Inl (Unsupported_provider provider), w)
      | Some providerFunc \<Rightarrow>
          (let config = (DefaultConfig default_options)\<lparr>Provider := provider\<rparr>
           in providerFunc config
                (Info (flogger f) Msg_creating [String_field ''provider'' provider] w)))"

definition CreateWithConfig ::
  "'v Config \<Rightarrow> ('v, 'b) Factory \<Rightarrow> world \<Rightarrow> (error + 'b Embedder) \<times> world" where
  "CreateWithConfig config f w =
     (case providers f (Provider config) of
        None \<Rightarrow> (Inl (Unsupported_provider (Provider config)), w)
      | Some providerFunc \<Rightarrow>
          providerFunc config
            (Info (flogger f) Msg_creating
               [String_field ''provider'' (Provider config),
                String_field ''model'' (Model config)] w))"

text \<open>\<open>ListProviders\<close> returns every key of the map once, in the order of Go's map
  iteration, which is not fixed: the model keeps the set of the names returned.\<close>

definition ListProviders :: "('v, 'b) Factory \<Rightarrow> string set" where
  "ListProviders f = dom (providers f)"

text \<open>The process-wide instance, as the package's initialisation leaves it.\<close>

definition defaultFactory :: "('d, 's) env \<Rightarrow> world \<Rightarrow> ('v, 'b) Factory" where
  "defaultFactory env w = fst (NewFactory env w)"

section \<open>Configuration files and the configuration manager (config.go)\<close>

text \<open>
  The collaborators of \<open>LoadConfig\<close>: \<open>os.ReadFile\<close>, and \<open>yaml.Unmarshal\<close> into a
  \<open>Config\<close> that starts as the zero value, so that a key the file does not have is left
  empty, zero or nil.
\<close>

text \<open>The zero value of \<open>Config\<close>: what \<open>yaml.Unmarshal\<close> makes of a file that has none
  of the keys.\<close>

definition zero_Config :: "'v Config" where
  "zero_Config = \<lparr>Provider = [], BaseURL = [], Model = [], Timeout = 0, Options = None\<rparr>"

record 'v files =
  ReadFile :: "string \<Rightarrow> string + string"
  yaml_Unmarshal :: "string \<Rightarrow> string + 'v Config"

definition LoadConfig ::
  "'v files \<Rightarrow> (string \<rightharpoonup> 'v) \<Rightarrow> string \<Rightarrow> error + 'v Config" where
  "LoadConfig fs default_options path =
     (case ReadFile fs path of
        Inl err \<Rightarrow> Inl (External err)
      | Inr data \<Rightarrow>
          (case yaml_Unmarshal fs data of
             Inl err \<Rightarrow> Inl (External err)
           | Inr config \<Rightarrow>
               (let c1 = (if Provider config = []
                          then config\<lparr>Provider := Provider (DefaultConfig default_options)\<rparr>
                          else config);
                    c2 = (if BaseURL c1 = []
                          then c1\<lparr>BaseURL := BaseURL (DefaultConfig default_options)\<rparr> else c1);
                    c3 = (if Model c2 = []
                          then c2\<lparr>Model := Model (DefaultConfig default_options)\<rparr> else c2);
                    c4 = (if Timeout c3 = 0
                          then c3\<lparr>Timeout := Timeout (DefaultConfig default_options)\<rparr> else c3);
                    c5 = (if Options c4 = None then c4\<lparr>Options := Some Map.empty\<rparr> else c4)
                in Inr c5)))"

record 'v EmbedderConfig =
  config :: "'v Config"

definition NewConfig :: "(string \<rightharpoonup> 'v) \<Rightarrow> 'v EmbedderConfig" where
  "NewConfig default_options = \<lparr>config = DefaultConfig default_options\<rparr>"

definition EmbedderConfig_WithProvider :: "'v EmbedderConfig \<Rightarrow> string \<Rightarrow> 'v EmbedderConfig" where
  "EmbedderConfig_WithProvider c provider = c\<lparr>config := (config c)\<lparr>Provider := provider\<rparr>\<rparr>"

definition EmbedderConfig_WithBaseURL :: "'v EmbedderConfig \<Rightarrow> string \<Rightarrow> 'v EmbedderConfig" where
  "EmbedderConfig_WithBaseURL c url = c\<lparr>config := (config c)\<lparr>BaseURL := url\<rparr>\<rparr>"

definition EmbedderConfig_WithModel :: "'v EmbedderConfig \<Rightarrow> string \<Rightarrow> 'v EmbedderConfig" where
  "EmbedderConfig_WithModel c m = c\<lparr>config := (config c)\<lparr>Model := m\<rparr>\<rparr>"

definition EmbedderConfig_WithTimeout :: "'v EmbedderConfig \<Rightarrow> int \<Rightarrow> 'v EmbedderConfig" where
  "EmbedderConfig_WithTimeout c timeout = c\<lparr>config := (config c)\<lparr>Timeout := timeout\<rparr>\<rparr>"

definition EmbedderConfig_WithOption ::
  "'v EmbedderConfig \<Rightarrow> string \<Rightarrow> 'v \<Rightarrow> 'v EmbedderConfig" where
  "EmbedderConfig_WithOption c key v =
     (let c1 = (if Options (config c) = None
                then c\<lparr>config := (config c)\<lparr>Options := Some Map.empty\<rparr>\<rparr> else c)
      in c1\<lparr>config := (config c1)\<lparr>Options := Some ((the (Options (config c1)))(key \<mapsto> v))\<rparr>\<rparr>)"

definition EmbedderConfig_LoadConfig ::
  "'v files \<Rightarrow> (string \<rightharpoonup> 'v) \<Rightarrow> 'v EmbedderConfig \<Rightarrow> string
     \<Rightarrow> error option \<times> 'v EmbedderConfig" where
  "EmbedderConfig_LoadConfig fs default_options c path =
     (case LoadConfig fs default_options path of
        Inl err \<Rightarrow> (Some err, c)
      | Inr loaded \<Rightarrow> (None, c\<lparr>config := loaded\<rparr>))"

definition GetConfig :: "'v EmbedderConfig \<Rightarrow> 'v Config" where
  "GetConfig c = config c"

text \<open>
  The manager that \<open>NewConfig\<close> returns holds the map of \<open>DefaultConfig\<close> itself, so
  \<open>WithOption\<close> on it writes the key into that map too: the manager after the call,
  and the content of the map of \<open>DefaultConfig\<close> after it. Any other write through a
  holder of that map changes the content in the same way; the readers of the variable
  are stated for every content.
\<close>

definition NewConfig_WithOption ::
  "(string \<rightharpoonup> 'v) \<Rightarrow> string \<Rightarrow> 'v \<Rightarrow> 'v EmbedderConfig \<times> (string \<rightharpoonup> 'v)" where
  "NewConfig_WithOption default_options key v =
     (EmbedderConfig_WithOption (NewConfig default_options) key v, default_options(key \<mapsto> v))"

section \<open>The builder (factory.go 93-147)\<close>

text \<open>
  The builder's field \<open>factory\<close> is a pointer; \<open>New\<close> is the only place that sets it,
  to the process-wide instance. The fields \<open>config\<close> and \<open>factory\<close> are \<open>b_config\<close> and
  \<open>b_factory\<close> here. A method returns its receiver: the builder after the call.
\<close>

datatype factory_pointer = Address_of_defaultFactory

record 'v EmbedderBuilder =
  b_config :: "'v EmbedderConfig"
  b_factory :: factory_pointer

definition New :: "(string \<rightharpoonup> 'v) \<Rightarrow> string \<Rightarrow> 'v EmbedderBuilder" where
  "New default_options provider =
     \<lparr>b_config = \<lparr>config = \<lparr>Provider = provider,
                               BaseURL = BaseURL (DefaultConfig default_options),
                               Model = Model (DefaultConfig default_options),
                               Timeout = Timeout (DefaultConfig default_options),
                               Options = Some Map.empty\<rparr>\<rparr>,
      b_factory = Address_of_defaultFactory\<rparr>"

definition EmbedderBuilder_WithBaseURL :: "'v EmbedderBuilder \<Rightarrow> string \<Rightarrow> 'v EmbedderBuilder" where
  "EmbedderBuilder_WithBaseURL b url = b\<lparr>b_config := EmbedderConfig_WithBaseURL (b_config b) url\<rparr>"

definition EmbedderBuilder_WithModel :: "'v EmbedderBuilder \<Rightarrow> string \<Rightarrow> 'v EmbedderBuilder" where
  "EmbedderBuilder_WithModel b m = b\<lparr>b_config := EmbedderConfig_WithModel (b_config b) m\<rparr>"

text \<open>The argument of the builder's \<open>WithTimeout\<close> is of any type (\<open>'t\<close>).\<close>

definition EmbedderBuilder_WithTimeout :: "'v EmbedderBuilder \<Rightarrow> 't \<Rightarrow> 'v EmbedderBuilder" where
  "EmbedderBuilder_WithTimeout b timeout = b"

definition EmbedderBuilder_WithOption ::
  "'v EmbedderBuilder \<Rightarrow> string \<Rightarrow> 'v \<Rightarrow> 'v EmbedderBuilder" where
  "EmbedderBuilder_WithOption b key v =
     b\<lparr>b_config := EmbedderConfig_WithOption (b_config b) key v\<rparr>"

definition EmbedderBuilder_LoadConfig ::
  "'v files \<Rightarrow> (string \<rightharpoonup> 'v) \<Rightarrow> 'v EmbedderBuilder \<Rightarrow> string
     \<Rightarrow> error option \<times> 'v EmbedderBuilder" where
  "EmbedderBuilder_LoadConfig fs default_options b path =
     (case EmbedderConfig_LoadConfig fs default_options (b_config b) path of
        (r, c) \<Rightarrow> (r, b\<lparr>b_config := c\<rparr>))"

text \<open>\<open>Build\<close> reads the factory its pointer names: the second argument is the
  process-wide instance as it is when \<open>Build\<close> is called.\<close>

definition Build ::
  "'v EmbedderBuilder \<Rightarrow> ('v, 'b) Factory \<Rightarrow> world \<Rightarrow> (error + 'b Embedder) \<times> world" where
  "Build b the_defaultFactory w =
     (case b_factory b of
        Address_of_defaultFactory \<Rightarrow> CreateWithConfig (GetConfig (b_config b)) the_defaultFactory w)"

section \<open>Notions for the statements about the backend\<close>

text \<open>
  The request that the single-item primitive \<open>embedSingle\<close> makes for a text, and what
  the primitive returns for the text when the requests made before it are \<open>h\<close>. (The
  result of \<open>embedSingle\<close> depends on the world through these requests only.)
\<close>

definition embed_request :: "OllamaEmbedder \<Rightarrow> string \<Rightarrow> request" where
  "embed_request e text =
     POST (baseURL e @ ''/api/embeddings'') (ollamaEmbedRequest (model e) text)"

definition primitive ::
  "('d, 's) env \<Rightarrow> OllamaEmbedder \<Rightarrow> request list \<Rightarrow> string \<Rightarrow> error + 's list" where
  "primitive env e h text = fst (embedSingle env text (e, \<lparr>calls = h, logs = []\<rparr>))"

text \<open>
  The primitive on each text of a sequence, in order, up to and with the first text on
  which it fails: the vectors of the texts before that one, and the error, if any.
\<close>

fun primitive_run ::
  "('d, 's) env \<Rightarrow> OllamaEmbedder \<Rightarrow> request list \<Rightarrow> string list
     \<Rightarrow> 's list list \<times> error option" where
  "primitive_run env e h [] = ([], None)"
| "primitive_run env e h (text # rest) =
     (case primitive env e h text of
        Inl err \<Rightarrow> ([], Some err)
      | Inr v \<Rightarrow>
          (case primitive_run env e (h @ [embed_request e text]) rest of
             (vs, r) \<Rightarrow> (v # vs, r)))"

text \<open>
  The specification's words for \<open>BatchEmbed\<close>: the texts are cut into consecutive chunks
  of \<open>n\<close> items, the last one possibly shorter (\<open>chunks\<close>); \<open>Embed\<close> is called once for
  each chunk, in order, the results are concatenated, and the first error ends the call
  (\<open>Embed_chunks\<close>).
\<close>

fun chunks :: "nat \<Rightarrow> 'a list \<Rightarrow> 'a list list" where
  "chunks n xs = (if xs = [] \<or> n = 0 then [] else take n xs # chunks n (drop n xs))"

declare chunks.simps [simp del]

fun Embed_chunks ::
  "('d, 's) env \<Rightarrow> string list list \<Rightarrow> 's list list \<Rightarrow> state
     \<Rightarrow> (error + 's list list) \<times> state" where
  "Embed_chunks env [] acc s = (Inr acc, s)"
| "Embed_chunks env (c # cs) acc s =
     (case Embed env c s of
        (Inl err, s1) \<Rightarrow> (Inl err, s1)
      | (Inr vs, s1) \<Rightarrow> Embed_chunks env cs (acc @ vs) s1)"

text \<open>The number of texts on which such a run calls the primitive.\<close>

definition invocations :: "'a list \<times> error option \<Rightarrow> nat" where
  "invocations r = (case snd r of None \<Rightarrow> length (fst r) | Some _ \<Rightarrow> Suc (length (fst r)))"

section \<open>Concrete inputs\<close>

text \<open>The inputs at which the theorems below are evaluated.\<close>

definition world0 :: world where
  "world0 = \<lparr>calls = [], logs = []\<rparr>"

definition mock_factory :: "(unit, unit) Factory" where
  "mock_factory = \<lparr>providers = Map.empty, flogger = Logger ''t''\<rparr>"

definition mock_provider :: "nat \<Rightarrow> (unit, unit) ProviderFunc" where
  "mock_provider k cfg w = (Inl (External (itoa k)), w)"

text \<open>A file system with one file, "embedder.yaml", that sets the model only; and one
  whose file sets the base URL and the timeout only, in two lines.\<close>

definition files_model_only :: "unit files" where
  "files_model_only =
     \<lparr>ReadFile = (\<lambda>p. if p = ''embedder.yaml'' then Inr ''model: m1''
                       else Inl ''no such file or directory''),
      yaml_Unmarshal = (\<lambda>d. if d = ''model: m1'' then Inr (zero_Config\<lparr>Model := ''m1''\<rparr>)
                             else Inl ''yaml: unmarshal errors'')\<rparr>"

definition url_timeout_yaml :: string where
  "url_timeout_yaml = ''base_url: http://h:1\<newline>timeout: 5s\<newline>''"

definition files_url_timeout :: "unit files" where
  "files_url_timeout =
     \<lparr>ReadFile = (\<lambda>p. if p = ''embedder.yaml'' then Inr url_timeout_yaml
                       else Inl ''no such file or directory''),
      yaml_Unmarshal = (\<lambda>d. if d = url_timeout_yaml
                             then Inr (zero_Config\<lparr>BaseURL := ''http://h:1'', Timeout := 5 * Second\<rparr>)
                             else Inl ''yaml: unmarshal errors'')\<rparr>"

text \<open>A constructor that tells whether the configuration it is given has the option
  "k".\<close>

definition options_provider :: "(unit, unit) ProviderFunc" where
  "options_provider cfg w =
     (Inl (External (case Options cfg of
                       None \<Rightarrow> ''options: nil''
                     | Some m \<Rightarrow> (case m ''k'' of None \<Rightarrow> ''options: no k''
                                 | Some u \<Rightarrow> ''options: k''))), w)"

text \<open>
  A server that answers the health probe with 200 and an embedding request with a
  vector that starts with the length of the prompt; it refuses a prompt of more than 60
  bytes with the status 413, and the connection fails for the prompt "bad". A ready
  backend for it, and a text of 64 bytes.
\<close>

definition env0 :: "(int, int) env" where
  "env0 =
     \<lparr>transport = (\<lambda>h r. case r of
          GET u \<Rightarrow> Inr (Response 200 ''ok'' None None)
        | POST u d \<Rightarrow>
            if Prompt d = ''bad'' then Inl ''connection refused''
            else if length (Prompt d) > 60 then Inr (Response 413 ''too large'' None None)
            else Inr (Response 200 (Prompt d) None None)),
      json_Unmarshal = (\<lambda>b. Inr [int (length b), 0, 0, 0]),
      float32 = (\<lambda>x. x),
      DEBUG = ''1''\<rparr>"

definition e0 :: OllamaEmbedder where
  "e0 = \<lparr>baseURL = ''http://h'', model = ''m'', httpClient_Timeout = 30 * Second,
         dimension = 4, logger = Logger ''ollama-embedder''\<rparr>"

definition long_text :: string where
  "long_text = ''0123456789012345678901234567890123456789012345678901234567890123''"

section \<open>The registry: registration, lookup, construction\<close>

lemma RegisterProvider_present:
  "providers f n = Some p0 \<Longrightarrow>
   RegisterProvider n p (f, w) = (Some (Already_registered n), (f, w))"
  by (simp add: RegisterProvider_def)

lemma RegisterProvider_absent:
  "providers f n = None \<Longrightarrow>
   RegisterProvider n p (f, w) =
     (None, (f\<lparr>providers := (providers f)(n \<mapsto> p)\<rparr>,
             Info (flogger f) Msg_registered [String_field ''name'' n] w))"
  by (simp add: RegisterProvider_def)

text \<open>
  Claim C1. Whatever the registry and the name, when \<open>RegisterProvider\<close> is called twice
  with the same name, the second call returns the error "provider n already registered"
  and changes neither the registry nor anything else. The constructor found under the
  name afterwards is the one that was there before the two calls, if there was one, and
  the one of the first call otherwise; in that case, where the first call succeeded,
  \<open>Create\<close> and \<open>CreateWithConfig\<close> call the first call's constructor.
\<close>

theorem RegisterProvider_twice:
  assumes first: "RegisterProvider n p1 (f, w) = (r1, (f1, w1))"
    and second: "RegisterProvider n p2 (f1, w1) = (r2, (f2, w2))"
  shows "r2 = Some (Already_registered n) \<and> f2 = f1 \<and> w2 = w1 \<and>
         providers f2 n = (case providers f n of None \<Rightarrow> Some p1 | Some p0 \<Rightarrow> Some p0) \<and>
         (r1 = None \<longrightarrow>
            providers f2 n = Some p1 \<and>
            Create opts n f2 w' =
              p1 ((DefaultConfig opts)\<lparr>Provider := n\<rparr>)
                 (Info (flogger f2) Msg_creating [String_field ''provider'' n] w') \<and>
            (Provider c = n \<longrightarrow>
               CreateWithConfig c f2 w' =
                 p1 c (Info (flogger f2) Msg_creating
                         [String_field ''provider'' n, String_field ''model'' (Model c)] w')))"
proof (cases "providers f n")
  case None
  with first have f1: "f1 = f\<lparr>providers := (providers f)(n \<mapsto> p1)\<rparr>" and r1: "r1 = None"
    by (simp_all add: RegisterProvider_absent)
  then have p: "providers f1 n = Some p1" by simp
  with second have "r2 = Some (Already_registered n)" "f2 = f1" "w2 = w1"
    by (simp_all add: RegisterProvider_present)
  with None p show ?thesis
    by (simp add: Create_def CreateWithConfig_def)
next
  case (Some p0)
  with first have f1: "f1 = f" "w1 = w" and r1: "r1 = Some (Already_registered n)"
    by (simp_all add: RegisterProvider_present)
  with Some second have "r2 = Some (Already_registered n)" "f2 = f1" "w2 = w1"
    by (simp_all add: RegisterProvider_present)
  with Some f1 r1 show ?thesis by simp
qed

theorem RegisterProvider_twice_witness:
  "fst (RegisterProvider ''mock'' (mock_provider 2)
          (snd (RegisterProvider ''mock'' (mock_provider 1) (mock_factory, world0)))) =
     Some (Already_registered ''mock'') \<and>
   snd (RegisterProvider ''mock'' (mock_provider 2)
          (snd (RegisterProvider ''mock'' (mock_provider 1) (mock_factory, world0)))) =
     snd (RegisterProvider ''mock'' (mock_provider 1) (mock_factory, world0)) \<and>
   fst (RegisterProvider ''mock'' (mock_provider 1) (mock_factory, world0)) = None \<and>
   fst (Create Map.empty ''mock''
          (fst (snd (RegisterProvider ''mock'' (mock_provider 2)
             (snd (RegisterProvider ''mock'' (mock_provider 1) (mock_factory, world0))))))
          world0) = Inl (External ''1'')"
proof -
  define s1 where "s1 = RegisterProvider ''mock'' (mock_provider 1) (mock_factory, world0)"
  define s2 where "s2 = RegisterProvider ''mock'' (mock_provider 2) (snd s1)"
  have h1: "RegisterProvider ''mock'' (mock_provider 1) (mock_factory, world0) =
              (fst s1, (fst (snd s1), snd (snd s1)))"
    by (simp add: s1_def)
  have h2: "RegisterProvider ''mock'' (mock_provider 2) (fst (snd s1), snd (snd s1)) =
              (fst s2, (fst (snd s2), snd (snd s2)))"
    by (simp add: s2_def)
  have r1: "fst s1 = None"
    by (simp add: s1_def RegisterProvider_def mock_factory_def)
  note t = RegisterProvider_twice [OF h1 h2, where opts = Map.empty and w' = world0
      and c = "(DefaultConfig Map.empty)\<lparr>Provider := ''mock''\<rparr>"]
  from t have a: "fst s2 = Some (Already_registered ''mock'')" by simp
  from t have b: "snd s2 = snd s1" by (simp add: prod_eq_iff)
  from t r1 have "Create Map.empty ''mock'' (fst (snd s2)) world0 =
      mock_provider 1 ((DefaultConfig Map.empty)\<lparr>Provider := ''mock''\<rparr>)
        (Info (flogger (fst (snd s2))) Msg_creating [String_field ''provider'' ''mock''] world0)"
    by blast
  then have c: "fst (Create Map.empty ''mock'' (fst (snd s2)) world0) = Inl (External ''1'')"
    by (simp add: mock_provider_def itoa.simps)
  from a b c r1 show ?thesis
    by (simp add: s1_def s2_def)
qed

text \<open>
  Claim C7. \<open>Create\<close> of a name that is not registered returns the error "unsupported
  provider: n" and does nothing else. For a registered name it logs one line and calls
  the name's constructor with the value that \<open>DefaultConfig\<close> has at the call, whatever
  its map of options holds by then, with \<open>Provider\<close> set to the name; what the
  constructor returns, backend or error, is what \<open>Create\<close> returns.
\<close>

theorem Create_lookup:
  "(providers f n = None \<longrightarrow> Create opts n f w = (Inl (Unsupported_provider n), w)) \<and>
   (\<forall>providerFunc. providers f n = Some providerFunc \<longrightarrow>
      Create opts n f w =
        providerFunc ((DefaultConfig opts)\<lparr>Provider := n\<rparr>)
          (Info (flogger f) Msg_creating [String_field ''provider'' n] w))"
  by (simp add: Create_def)

text \<open>At an unknown name; at a registered name with the default as initialised; and
  at the same name after \<open>NewConfig().WithOption("k", ...)\<close> has written into the map of
  the default: the constructor is given the option.\<close>

theorem Create_lookup_witness:
  "Create Map.empty ''nonexistent''
     (mock_factory\<lparr>providers := [''mock'' \<mapsto> options_provider]\<rparr>) world0 =
     (Inl (Unsupported_provider ''nonexistent''), world0) \<and>
   Create Map.empty ''mock''
     (mock_factory\<lparr>providers := [''mock'' \<mapsto> options_provider]\<rparr>) world0 =
     (Inl (External ''options: no k''),
      Info (Logger ''t'') Msg_creating [String_field ''provider'' ''mock''] world0) \<and>
   Create (snd (NewConfig_WithOption Map.empty ''k'' ())) ''mock''
     (mock_factory\<lparr>providers := [''mock'' \<mapsto> options_provider]\<rparr>) world0 =
     (Inl (External ''options: k''),
      Info (Logger ''t'') Msg_creating [String_field ''provider'' ''mock''] world0)"
proof -
  let ?f = "mock_factory\<lparr>providers := [''mock'' \<mapsto> options_provider]\<rparr>"
  have absent: "providers ?f ''nonexistent'' = None"
    and present: "providers ?f ''mock'' = Some options_provider"
    and lg: "flogger ?f = Logger ''t''"
    by (simp_all add: mock_factory_def)
  from Create_lookup [of ?f "''nonexistent''" Map.empty world0] absent
  have a: "Create Map.empty ''nonexistent'' ?f world0 =
             (Inl (Unsupported_provider ''nonexistent''), world0)"
    by blast
  from Create_lookup [of ?f "''mock''" Map.empty world0] present
  have "Create Map.empty ''mock'' ?f world0 =
          options_provider ((DefaultConfig Map.empty)\<lparr>Provider := ''mock''\<rparr>)
            (Info (flogger ?f) Msg_creating [String_field ''provider'' ''mock''] world0)"
    by blast
  then have b: "Create Map.empty ''mock'' ?f world0 =
     (Inl (External ''options: no k''),
      Info (Logger ''t'') Msg_creating [String_field ''provider'' ''mock''] world0)"
    by (simp add: lg options_provider_def DefaultConfig_def)
  from Create_lookup [of ?f "''mock''" "snd (NewConfig_WithOption Map.empty ''k'' ())" world0]
    present
  have "Create (snd (NewConfig_WithOption Map.empty ''k'' ())) ''mock'' ?f world0 =
          options_provider
            ((DefaultConfig (snd (NewConfig_WithOption Map.empty ''k'' ())))\<lparr>Provider := ''mock''\<rparr>)
            (Info (flogger ?f) Msg_creating [String_field ''provider'' ''mock''] world0)"
    by blast
  then have c: "Create (snd (NewConfig_WithOption Map.empty ''k'' ())) ''mock'' ?f world0 =
     (Inl (External ''options: k''),
      Info (Logger ''t'') Msg_creating [String_field ''provider'' ''mock''] world0)"
    by (simp add: lg options_provider_def DefaultConfig_def NewConfig_WithOption_def)
  from a b c show ?thesis by (intro conjI)
qed

text \<open>
  Claim C10. The registry that \<open>NewFactory\<close> returns, and so the process-wide instance,
  has the name "ollama" registered, with the constructor around \<open>NewOllamaEmbedder\<close>:
  \<open>ListProviders\<close> on it has "ollama", and \<open>RegisterProvider\<close> of "ollama" on it returns
  the error "provider ollama already registered" and changes nothing.
\<close>

theorem NewFactory_registers_ollama:
  "providers (fst (NewFactory env w)) ''ollama'' = Some (ollama_provider env) \<and>
   ''ollama'' \<in> ListProviders (fst (NewFactory env w)) \<and>
   ''ollama'' \<in> ListProviders (defaultFactory env w) \<and>
   RegisterProvider ''ollama'' p (NewFactory env w) =
     (Some (Already_registered ''ollama''), NewFactory env w) \<and>
   RegisterProvider ''ollama'' p (defaultFactory env w, w') =
     (Some (Already_registered ''ollama''), (defaultFactory env w, w'))"
  by (simp add: NewFactory_def defaultFactory_def RegisterProvider_def ListProviders_def)

section \<open>Configuration files and the builder\<close>

lemma LoadConfig_read_error:
  "ReadFile fs path = Inl m \<Longrightarrow> LoadConfig fs opts path = Inl (External m)"
  by (simp add: LoadConfig_def)

lemma LoadConfig_parse_error:
  "ReadFile fs path = Inr d \<Longrightarrow> yaml_Unmarshal fs d = Inl m \<Longrightarrow>
   LoadConfig fs opts path = Inl (External m)"
  by (simp add: LoadConfig_def)

lemma LoadConfig_parsed:
  "ReadFile fs path = Inr d \<Longrightarrow> yaml_Unmarshal fs d = Inr raw \<Longrightarrow>
   LoadConfig fs opts path =
     Inr \<lparr>Provider = (if Provider raw = [] then ''ollama'' else Provider raw),
          BaseURL = (if BaseURL raw = [] then ''http://localhost:11434'' else BaseURL raw),
          Model = (if Model raw = [] then ''qwen2.5:7b'' else Model raw),
          Timeout = (if Timeout raw = 0 then 30 * Second else Timeout raw),
          Options = (case Options raw of None \<Rightarrow> Some Map.empty | Some m \<Rightarrow> Some m)\<rparr>"
  by (cases raw) (simp add: LoadConfig_def DefaultConfig_def Let_def split: option.splits)

text \<open>
  Claim C5. When the file is read and parsed, \<open>LoadConfig\<close> returns a configuration in
  which every field that the parser left empty, zero or nil has the default ("ollama",
  "http://localhost:11434", "qwen2.5:7b", 30 seconds, an empty map of options) and every
  other field is as the parser left it, whatever the map of \<open>DefaultConfig\<close> holds at
  the call. A file that sets the model only gives \<open>DefaultConfig\<close> as the package
  initialises it, but for the model; a file that sets every field gives its own values.
\<close>

theorem LoadConfig_backfill:
  assumes "ReadFile fs path = Inr d" and "yaml_Unmarshal fs d = Inr raw"
  shows "\<exists>c. LoadConfig fs opts path = Inr c \<and>
     Provider c = (if Provider raw = [] then ''ollama'' else Provider raw) \<and>
     BaseURL c = (if BaseURL raw = [] then ''http://localhost:11434'' else BaseURL raw) \<and>
     Model c = (if Model raw = [] then ''qwen2.5:7b'' else Model raw) \<and>
     Timeout c = (if Timeout raw = 0 then 30 * Second else Timeout raw) \<and>
     Options c = (case Options raw of None \<Rightarrow> Some Map.empty | Some m \<Rightarrow> Some m) \<and>
     (\<forall>m. m \<noteq> [] \<and> raw = zero_Config\<lparr>Model := m\<rparr> \<longrightarrow> c = (DefaultConfig Map.empty)\<lparr>Model := m\<rparr>) \<and>
     (Provider raw \<noteq> [] \<and> BaseURL raw \<noteq> [] \<and> Model raw \<noteq> [] \<and> Timeout raw \<noteq> 0 \<and>
      Options raw \<noteq> None \<longrightarrow> c = raw)"
proof -
  let ?c = "\<lparr>Provider = (if Provider raw = [] then ''ollama'' else Provider raw),
          BaseURL = (if BaseURL raw = [] then ''http://localhost:11434'' else BaseURL raw),
          Model = (if Model raw = [] then ''qwen2.5:7b'' else Model raw),
          Timeout = (if Timeout raw = 0 then 30 * Second else Timeout raw),
          Options = (case Options raw of None \<Rightarrow> Some Map.empty | Some m \<Rightarrow> Some m)\<rparr>"
  have load: "LoadConfig fs opts path = Inr ?c"
    using assms by (rule LoadConfig_parsed)
  have only_model: "\<forall>m. m \<noteq> [] \<and> raw = zero_Config\<lparr>Model := m\<rparr> \<longrightarrow> ?c = (DefaultConfig Map.empty)\<lparr>Model := m\<rparr>"
    by (simp add: zero_Config_def DefaultConfig_def)
  have full: "Provider raw \<noteq> [] \<and> BaseURL raw \<noteq> [] \<and> Model raw \<noteq> [] \<and> Timeout raw \<noteq> 0 \<and>
      Options raw \<noteq> None \<longrightarrow> ?c = raw"
    by (cases raw) auto
  from load only_model full show ?thesis
    by (intro exI [of _ ?c]) simp
qed

theorem LoadConfig_backfill_witness:
  "LoadConfig files_model_only Map.empty ''embedder.yaml'' = Inr ((DefaultConfig Map.empty)\<lparr>Model := ''m1''\<rparr>) \<and>
   LoadConfig files_url_timeout Map.empty ''embedder.yaml'' =
     Inr ((DefaultConfig Map.empty)\<lparr>BaseURL := ''http://h:1'', Timeout := 5 * Second\<rparr>)"
proof -
  have r1: "ReadFile files_model_only ''embedder.yaml'' = Inr ''model: m1''"
    by (simp add: files_model_only_def)
  have u1: "yaml_Unmarshal files_model_only ''model: m1'' = Inr (zero_Config\<lparr>Model := ''m1''\<rparr>)"
    by (simp add: files_model_only_def)
  from LoadConfig_backfill [OF r1 u1, where opts = Map.empty]
  have a: "LoadConfig files_model_only Map.empty ''embedder.yaml'' = Inr ((DefaultConfig Map.empty)\<lparr>Model := ''m1''\<rparr>)"
    by auto
  have r2: "ReadFile files_url_timeout ''embedder.yaml'' = Inr url_timeout_yaml"
    by (simp add: files_url_timeout_def)
  have u2: "yaml_Unmarshal files_url_timeout url_timeout_yaml =
              Inr (zero_Config\<lparr>BaseURL := ''http://h:1'', Timeout := 5 * Second\<rparr>)"
    by (simp add: files_url_timeout_def)
  from LoadConfig_backfill [OF r2 u2, where opts = Map.empty] obtain c where
    c: "LoadConfig files_url_timeout Map.empty ''embedder.yaml'' = Inr c"
       "Provider c = ''ollama''" "BaseURL c = ''http://h:1''" "Model c = ''qwen2.5:7b''"
       "Timeout c = 5 * Second" "Options c = Some Map.empty"
    by (auto simp: zero_Config_def Second_def)
  then have "c = (DefaultConfig Map.empty)\<lparr>BaseURL := ''http://h:1'', Timeout := 5 * Second\<rparr>"
    by (cases c) (simp add: DefaultConfig_def)
  with a c(1) show ?thesis by simp
qed

text \<open>
  Claim C6, as amended. \<open>LoadConfig\<close> of the builder is all or nothing. When the file
  cannot be read or parsed, it returns the error and the builder is as it was. When the
  file is loaded, the builder's configuration is the loaded one, whatever it was before;
  the pointer to the factory stays. So nothing of an earlier setter call is left, also
  not in a field that the file leaves empty: that field has the process-wide default.
\<close>

theorem EmbedderBuilder_LoadConfig_atomic:
  "(\<forall>m. ReadFile fs path = Inl m \<longrightarrow>
      EmbedderBuilder_LoadConfig fs opts b path = (Some (External m), b)) \<and>
   (\<forall>d m. ReadFile fs path = Inr d \<and> yaml_Unmarshal fs d = Inl m \<longrightarrow>
      EmbedderBuilder_LoadConfig fs opts b path = (Some (External m), b)) \<and>
   (\<forall>err. LoadConfig fs opts path = Inl err \<longrightarrow>
      EmbedderBuilder_LoadConfig fs opts b path = (Some err, b)) \<and>
   (\<forall>c. LoadConfig fs opts path = Inr c \<longrightarrow>
      fst (EmbedderBuilder_LoadConfig fs opts b path) = None \<and>
      GetConfig (b_config (snd (EmbedderBuilder_LoadConfig fs opts b path))) = c \<and>
      b_factory (snd (EmbedderBuilder_LoadConfig fs opts b path)) = b_factory b \<and>
      b_config (snd (EmbedderBuilder_LoadConfig fs opts b path)) = \<lparr>config = c\<rparr>)"
  by (auto simp: EmbedderBuilder_LoadConfig_def EmbedderConfig_LoadConfig_def GetConfig_def
      LoadConfig_read_error LoadConfig_parse_error)

theorem EmbedderBuilder_LoadConfig_atomic_witness:
  "EmbedderBuilder_LoadConfig files_model_only Map.empty (New Map.empty ''custom'') ''missing.yaml'' =
     (Some (External ''no such file or directory''), New Map.empty ''custom'') \<and>
   GetConfig (b_config (snd (EmbedderBuilder_LoadConfig files_model_only Map.empty
       (EmbedderBuilder_WithBaseURL (New Map.empty ''custom'') ''http://h:2'') ''embedder.yaml''))) =
     (DefaultConfig Map.empty)\<lparr>Model := ''m1''\<rparr>"
proof -
  have rd: "ReadFile files_model_only ''missing.yaml'' = Inl ''no such file or directory''"
    by (simp add: files_model_only_def)
  have ld: "LoadConfig files_model_only Map.empty ''embedder.yaml'' = Inr ((DefaultConfig Map.empty)\<lparr>Model := ''m1''\<rparr>)"
    by (simp add: LoadConfig_def files_model_only_def zero_Config_def DefaultConfig_def)
  from EmbedderBuilder_LoadConfig_atomic [where fs = files_model_only and opts = Map.empty
      and path = "''missing.yaml''" and b = "New Map.empty ''custom''"] rd
  have a: "EmbedderBuilder_LoadConfig files_model_only Map.empty (New Map.empty ''custom'') ''missing.yaml'' =
     (Some (External ''no such file or directory''), New Map.empty ''custom'')"
    by blast
  from EmbedderBuilder_LoadConfig_atomic [where fs = files_model_only and opts = Map.empty
      and path = "''embedder.yaml''"
      and b = "EmbedderBuilder_WithBaseURL (New Map.empty ''custom'') ''http://h:2''"] ld
  have b: "GetConfig (b_config (snd (EmbedderBuilder_LoadConfig files_model_only Map.empty
       (EmbedderBuilder_WithBaseURL (New Map.empty ''custom'') ''http://h:2'') ''embedder.yaml''))) =
     (DefaultConfig Map.empty)\<lparr>Model := ''m1''\<rparr>"
    by blast
  from a b show ?thesis by simp
qed

text \<open>
  The claim C6 as it stands keeps the effect of an earlier setter in a field that the
  file leaves empty. It does not hold: after \<open>WithModel\<close> of "m1", a file of two lines
  that sets only the base URL and the timeout leaves the builder with the default model.
\<close>

theorem EmbedderBuilder_LoadConfig_counterexample:
  "Model (GetConfig (b_config (EmbedderBuilder_WithModel (New Map.empty ''ollama'') ''m1''))) = ''m1'' \<and>
   fst (EmbedderBuilder_LoadConfig files_url_timeout Map.empty
          (EmbedderBuilder_WithModel (New Map.empty ''ollama'') ''m1'') ''embedder.yaml'') = None \<and>
   Model (GetConfig (b_config (snd (EmbedderBuilder_LoadConfig files_url_timeout Map.empty
          (EmbedderBuilder_WithModel (New Map.empty ''ollama'') ''m1'') ''embedder.yaml'')))) =
     ''qwen2.5:7b'' \<and>
   Model (GetConfig (b_config (snd (EmbedderBuilder_LoadConfig files_url_timeout Map.empty
          (EmbedderBuilder_WithModel (New Map.empty ''ollama'') ''m1'') ''embedder.yaml'')))) \<noteq> ''m1''"
  by (simp add: EmbedderBuilder_LoadConfig_def EmbedderConfig_LoadConfig_def LoadConfig_def
      files_url_timeout_def zero_Config_def DefaultConfig_def GetConfig_def New_def
      EmbedderBuilder_WithModel_def EmbedderConfig_WithModel_def Second_def)

text \<open>
  Claim C9. The builder's \<open>WithTimeout\<close> returns the builder it was given, whatever the
  value: the configuration, and the timeout in it, are as before. Nor do \<open>New\<close> and
  the other setters of the builder touch the timeout, which \<open>New\<close> sets to the default
  of 30 seconds. The timeout is set by \<open>WithTimeout\<close> of the configuration manager and
  by a loaded file.
\<close>

theorem EmbedderBuilder_WithTimeout_noop:
  "EmbedderBuilder_WithTimeout (b :: 'v EmbedderBuilder) t = b \<and>
   Timeout (GetConfig (b_config (EmbedderBuilder_WithTimeout b t))) =
     Timeout (GetConfig (b_config b)) \<and>
   Timeout (GetConfig (b_config (EmbedderBuilder_WithTimeout (New opts p :: 'v EmbedderBuilder) t))) =
     30 * Second \<and>
   Timeout (GetConfig (b_config (EmbedderBuilder_WithBaseURL b u))) =
     Timeout (GetConfig (b_config b)) \<and>
   Timeout (GetConfig (b_config (EmbedderBuilder_WithModel b m))) =
     Timeout (GetConfig (b_config b)) \<and>
   Timeout (GetConfig (b_config (EmbedderBuilder_WithOption b k v))) =
     Timeout (GetConfig (b_config b)) \<and>
   Timeout (GetConfig (EmbedderConfig_WithTimeout (c :: 'v EmbedderConfig) d)) = d \<and>
   (\<forall>loaded. LoadConfig fs opts path = Inr loaded \<longrightarrow>
      Timeout (GetConfig (b_config (snd (EmbedderBuilder_LoadConfig fs opts b path)))) =
        Timeout loaded)"
  by (simp add: EmbedderBuilder_WithTimeout_def EmbedderBuilder_WithBaseURL_def
      EmbedderBuilder_WithModel_def EmbedderBuilder_WithOption_def
      EmbedderConfig_WithBaseURL_def EmbedderConfig_WithModel_def
      EmbedderConfig_WithOption_def EmbedderConfig_WithTimeout_def
      EmbedderBuilder_LoadConfig_def EmbedderConfig_LoadConfig_def
      GetConfig_def New_def DefaultConfig_def Let_def)

theorem EmbedderBuilder_WithTimeout_noop_witness:
  "EmbedderBuilder_WithTimeout (New Map.empty ''ollama'' :: unit EmbedderBuilder) (10 * Second) =
     New Map.empty ''ollama'' \<and>
   Timeout (GetConfig (b_config (EmbedderBuilder_WithTimeout
     (New Map.empty ''ollama'' :: unit EmbedderBuilder) (10 * Second)))) = 30 * Second \<and>
   Timeout (GetConfig (b_config (snd (EmbedderBuilder_LoadConfig files_url_timeout Map.empty
     (New Map.empty ''ollama'') ''embedder.yaml'')))) = 5 * Second"
proof -
  have ld: "LoadConfig files_url_timeout Map.empty ''embedder.yaml'' =
              Inr ((DefaultConfig Map.empty)\<lparr>BaseURL := ''http://h:1'', Timeout := 5 * Second\<rparr>)"
    by (simp add: LoadConfig_def files_url_timeout_def zero_Config_def DefaultConfig_def
        Second_def)
  from EmbedderBuilder_WithTimeout_noop [where b = "New Map.empty ''ollama''"
      and t = "10 * Second" and opts = Map.empty and p = "''ollama''" and u = "''u''"
      and m = "''m''" and k = "''k''" and v = "()" and c = "NewConfig Map.empty" and d = 0
      and fs = files_url_timeout and path = "''embedder.yaml''"] ld
  show ?thesis by simp
qed


section \<open>The Ollama backend: the primitive, Embed, BatchEmbed, construction\<close>


lemma closeResponse_fst: "fst (closeResponse resp s) = fst s"
  by (cases s) (simp add: closeResponse_def split: option.splits)

lemma closeResponse_calls: "calls (snd (closeResponse resp s)) = calls (snd s)"
  by (cases s) (simp add: closeResponse_def Warn_def log_def split: option.splits)

lemma makeRequest_fst: "fst (snd (makeRequest env url rd s)) = fst s"
  by (cases s)
     (simp add: makeRequest_def Let_def closeResponse_fst split: sum.splits option.splits)

lemma makeRequest_calls:
  "calls (snd (snd (makeRequest env url rd s))) = calls (snd s) @ [POST url rd]"
  by (cases s)
     (simp add: makeRequest_def Let_def closeResponse_calls split: sum.splits option.splits)

lemma makeRequest_result:
  "calls (snd s) = calls (snd s') \<Longrightarrow>
   fst (makeRequest env url rd s) = fst (makeRequest env url rd s')"
  by (cases s, cases s')
     (simp add: makeRequest_def Let_def split: sum.splits option.splits)

lemma embedSingle_fst: "fst (snd (embedSingle env t s)) = fst s"
proof -
  have "fst (snd (embedSingle env t s)) =
        fst (snd (makeRequest env (baseURL (fst s) @ ''/api/embeddings'')
                    (ollamaEmbedRequest (model (fst s)) t) s))"
    by (simp add: embedSingle_def Let_def split: prod.splits sum.splits)
  then show ?thesis by (simp add: makeRequest_fst)
qed

lemma embedSingle_calls:
  "calls (snd (snd (embedSingle env t s))) = calls (snd s) @ [embed_request (fst s) t]"
proof -
  have "snd (embedSingle env t s) =
        snd (makeRequest env (baseURL (fst s) @ ''/api/embeddings'')
               (ollamaEmbedRequest (model (fst s)) t) s)"
    by (simp add: embedSingle_def Let_def split: prod.splits sum.splits)
  then show ?thesis by (simp add: makeRequest_calls embed_request_def)
qed

lemma embedSingle_unfold:
  "fst (embedSingle env t s) =
     (case fst (makeRequest env (baseURL (fst s) @ ''/api/embeddings'')
                  (ollamaEmbedRequest (model (fst s)) t) s) of
        Inl err \<Rightarrow> Inl (Embed_text_failed err)
      | Inr embedding \<Rightarrow> Inr (map (float32 env) embedding))"
  by (simp add: embedSingle_def Let_def split: prod.splits sum.splits)

lemma embedSingle_result:
  "fst (embedSingle env t s) = primitive env (fst s) (calls (snd s)) t"
proof -
  have "fst (makeRequest env url rd s) =
        fst (makeRequest env url rd (fst s, \<lparr>calls = calls (snd s), logs = []\<rparr>))" for url rd
    by (rule makeRequest_result) simp
  then show ?thesis
    by (simp add: primitive_def embedSingle_unfold)
qed


lemma Debug_calls: "calls (Debug d l m fs w) = calls w"
  by (simp add: Debug_def log_def)

lemma Error_calls: "calls (Error l m fs w) = calls w"
  by (simp add: Error_def log_def)

lemma Error_logs_last:
  "last (logs (Error l m fs w)) =
     \<lparr>entry_level = ''ERROR'', entry_logger = logger_name l, entry_msg = m, entry_fields = fs\<rparr>"
  by (simp add: Error_def log_def)

lemma embedSingle_cases:
  obtains w1 where "embedSingle env t (e, w) = (primitive env e (calls w) t, (e, w1))"
    and "calls w1 = calls w @ [embed_request e t]"
proof -
  obtain r e1 w1 where eq: "embedSingle env t (e, w) = (r, (e1, w1))"
    by (metis prod_cases3)
  have "r = primitive env e (calls w) t"
    using embedSingle_result [of env t "(e, w)"] eq by simp
  moreover have "e1 = e"
    using embedSingle_fst [of env t "(e, w)"] eq by simp
  moreover have "calls w1 = calls w @ [embed_request e t]"
    using embedSingle_calls [of env t "(e, w)"] eq by simp
  ultimately show ?thesis using that eq by simp
qed

lemma Embed_loop_char:
  "fst (snd (Embed_loop env i T acc (e, w))) = e \<and>
   fst (Embed_loop env i T acc (e, w)) =
     (case primitive_run env e (calls w) T of
        (vs, None) \<Rightarrow> Inr (acc @ vs)
      | (vs, Some err) \<Rightarrow> Inl (Embed_at_index_failed (i + length vs) err)) \<and>
   calls (snd (snd (Embed_loop env i T acc (e, w)))) =
     calls w @ map (embed_request e) (take (invocations (primitive_run env e (calls w) T)) T)"
proof (induction T arbitrary: i acc w)
  case Nil
  show ?case by (simp add: invocations_def)
next
  case (Cons t T)
  obtain w1 where step: "embedSingle env t (e, w) = (primitive env e (calls w) t, (e, w1))"
    and c1: "calls w1 = calls w @ [embed_request e t]"
    by (rule embedSingle_cases)
  show ?case
  proof (cases "primitive env e (calls w) t")
    case (Inl err)
    with step c1 show ?thesis
      by (simp add: invocations_def Error_calls)
  next
    case (Inr v)
    obtain vs r where run: "primitive_run env e (calls w @ [embed_request e t]) T = (vs, r)"
      by (cases "primitive_run env e (calls w @ [embed_request e t]) T")
    note ih = Cons.IH [of "Suc i" "acc @ [v]" w1, unfolded c1 run]
    from Inr step run ih c1 show ?thesis
      by (cases r) (simp_all add: invocations_def)
  qed
qed

lemma Embed_loop_failure_log:
  "primitive_run env e (calls w) T = (vs, Some err) \<Longrightarrow>
   last (logs (snd (snd (Embed_loop env i T acc (e, w))))) =
     \<lparr>entry_level = ''ERROR'', entry_logger = logger_name (logger e),
      entry_msg = Msg_embed_failed,
      entry_fields = [Error_field err, Int_field ''index'' (int (i + length vs)),
                      String_field ''text_preview'' (getTextPreview (T ! length vs))]\<rparr>"
proof (induction T arbitrary: i acc w vs)
  case Nil
  then show ?case by simp
next
  case (Cons t T)
  obtain w1 where step: "embedSingle env t (e, w) = (primitive env e (calls w) t, (e, w1))"
    and c1: "calls w1 = calls w @ [embed_request e t]"
    by (rule embedSingle_cases)
  show ?case
  proof (cases "primitive env e (calls w) t")
    case (Inl err')
    with Cons.prems step show ?thesis
      by (simp add: Error_logs_last)
  next
    case (Inr v)
    obtain vs' r where run: "primitive_run env e (calls w1) T = (vs', r)"
      by (cases "primitive_run env e (calls w1) T")
    with Cons.prems Inr c1 have r: "r = Some err" and vs: "vs = v # vs'"
      by simp_all
    from Cons.IH [of w1 vs' "Suc i" "acc @ [v]"] run r
    have "last (logs (snd (snd (Embed_loop env (Suc i) T (acc @ [v]) (e, w1))))) =
      \<lparr>entry_level = ''ERROR'', entry_logger = logger_name (logger e),
       entry_msg = Msg_embed_failed,
       entry_fields = [Error_field err, Int_field ''index'' (int (Suc i + length vs')),
                       String_field ''text_preview'' (getTextPreview (T ! length vs'))]\<rparr>"
      by simp
    with Inr step vs show ?thesis by simp
  qed
qed

lemma Embed_char:
  "fst (snd (Embed env T (e, w))) = e \<and>
   fst (Embed env T (e, w)) =
     (case primitive_run env e (calls w) T of
        (vs, None) \<Rightarrow> Inr vs
      | (vs, Some err) \<Rightarrow> Inl (Embed_at_index_failed (length vs) err)) \<and>
   calls (snd (snd (Embed env T (e, w)))) =
     calls w @ map (embed_request e) (take (invocations (primitive_run env e (calls w) T)) T)"
proof (cases "T = []")
  case True
  then show ?thesis by (simp add: Embed_def invocations_def)
next
  case False
  define w0 where "w0 = Debug (DEBUG env) (logger e) Msg_embed_start
                          [Int_field ''count'' (int (length T))] w"
  have c0: "calls w0 = calls w" by (simp add: w0_def Debug_calls)
  obtain r e2 w2 where loop: "Embed_loop env 0 T [] (e, w0) = (r, (e2, w2))"
    by (metis prod_cases3)
  note ch = Embed_loop_char [of env 0 T "[]" e w0, unfolded loop c0]
  obtain vs x where run: "primitive_run env e (calls w) T = (vs, x)"
    by (cases "primitive_run env e (calls w) T")
  from False loop ch run show ?thesis
    by (cases x) (simp_all add: Embed_def w0_def [symmetric] Debug_calls)
qed


lemma primitive_run_length:
  "primitive_run env e h T = (vs, r) \<Longrightarrow>
   (r = None \<longrightarrow> length vs = length T) \<and> (r \<noteq> None \<longrightarrow> length vs < length T)"
  by (induction T arbitrary: h vs) (auto split: sum.splits prod.splits)

lemma primitive_run_success:
  "primitive_run env e h T = (vs, None) \<Longrightarrow>
   length vs = length T \<and>
   (\<forall>i<length T. primitive env e (h @ map (embed_request e) (take i T)) (T ! i) = Inr (vs ! i))"
proof (induction T arbitrary: h vs)
  case Nil
  then show ?case by simp
next
  case (Cons t T)
  from Cons.prems obtain v vs' where
    p: "primitive env e h t = Inr v" and
    run: "primitive_run env e (h @ [embed_request e t]) T = (vs', None)" and
    vs: "vs = v # vs'"
    by (auto split: sum.splits prod.splits)
  from Cons.IH [OF run] have len: "length vs' = length T"
    and ih: "\<And>i. i < length T \<Longrightarrow>
      primitive env e (h @ embed_request e t # map (embed_request e) (take i T)) (T ! i) =
        Inr (vs' ! i)"
    by simp_all
  show ?case
  proof (intro conjI allI impI)
    show "length vs = length (t # T)" using len vs by simp
  next
    fix i assume "i < length (t # T)"
    then show "primitive env e (h @ map (embed_request e) (take i (t # T))) ((t # T) ! i) =
                 Inr (vs ! i)"
      using p ih vs by (cases i) simp_all
  qed
qed

lemma primitive_run_all_success:
  "\<forall>i<length T. \<exists>v. primitive env e (h @ map (embed_request e) (take i T)) (T ! i) = Inr v \<Longrightarrow>
   \<exists>vs. primitive_run env e h T = (vs, None)"
proof (induction T arbitrary: h)
  case Nil
  show ?case by simp
next
  case (Cons t T)
  from Cons.prems have "\<exists>v. primitive env e h t = Inr v"
    by (auto dest: spec [of _ 0])
  then obtain v where p: "primitive env e h t = Inr v" ..
  have "\<forall>i<length T. \<exists>v. primitive env e
      ((h @ [embed_request e t]) @ map (embed_request e) (take i T)) (T ! i) = Inr v"
  proof (intro allI impI)
    fix i assume "i < length T"
    with Cons.prems
    have "\<exists>v. primitive env e (h @ map (embed_request e) (take (Suc i) (t # T)))
                ((t # T) ! Suc i) = Inr v"
      by (auto dest: spec [of _ "Suc i"])
    then show "\<exists>v. primitive env e
      ((h @ [embed_request e t]) @ map (embed_request e) (take i T)) (T ! i) = Inr v"
      by simp
  qed
  from Cons.IH [OF this] obtain vs where
    "primitive_run env e (h @ [embed_request e t]) T = (vs, None)" ..
  with p show ?case by simp
qed

lemma primitive_run_first_failure:
  "i < length T \<Longrightarrow>
   \<forall>j<i. \<exists>v. primitive env e (h @ map (embed_request e) (take j T)) (T ! j) = Inr v \<Longrightarrow>
   primitive env e (h @ map (embed_request e) (take i T)) (T ! i) = Inl err \<Longrightarrow>
   \<exists>vs. primitive_run env e h T = (vs, Some err) \<and> length vs = i"
proof (induction T arbitrary: h i)
  case Nil
  then show ?case by simp
next
  case (Cons t T)
  show ?case
  proof (cases i)
    case 0
    with Cons.prems show ?thesis by simp
  next
    case (Suc k)
    from Cons.prems(2) Suc have "\<exists>v. primitive env e h t = Inr v"
      by (auto dest: spec [of _ 0])
    then obtain v where p: "primitive env e h t = Inr v" ..
    have k: "k < length T" using Cons.prems(1) Suc by simp
    have before: "\<forall>j<k. \<exists>v. primitive env e
        ((h @ [embed_request e t]) @ map (embed_request e) (take j T)) (T ! j) = Inr v"
    proof (intro allI impI)
      fix j assume "j < k"
      with Cons.prems(2) Suc
      have "\<exists>v. primitive env e (h @ map (embed_request e) (take (Suc j) (t # T)))
                  ((t # T) ! Suc j) = Inr v"
        by (auto dest: spec [of _ "Suc j"])
      then show "\<exists>v. primitive env e
        ((h @ [embed_request e t]) @ map (embed_request e) (take j T)) (T ! j) = Inr v"
        by simp
    qed
    have at: "primitive env e ((h @ [embed_request e t]) @ map (embed_request e) (take k T))
                (T ! k) = Inl err"
      using Cons.prems(3) Suc by simp
    from Cons.IH [OF k before at] obtain vs' where
      "primitive_run env e (h @ [embed_request e t]) T = (vs', Some err)" "length vs' = k"
      by blast
    with p Suc show ?thesis by simp
  qed
qed

lemma getTextPreview_length: "length (getTextPreview t) \<le> 50"
  by (simp add: getTextPreview_def)

text \<open>
  Claim C2. \<open>Embed\<close> of no text returns an empty sequence and no error, and leaves the
  world as it is: no request, no log line. The requests that \<open>Embed\<close> makes are always
  those of the primitive for the first texts of the sequence, one each, in the order of
  the texts. When the primitive succeeds on every text of the sequence (each after the
  requests for the texts before it), \<open>Embed\<close> returns a result and no error, and
  leaves the backend as it was. When \<open>Embed\<close> of a sequence returns a result,
  it has made one request of the primitive for each text, in the order of the texts, and
  nothing else; the result has one vector for each text, and the vector at each index is
  what the primitive returned for the text at that index (after the requests for the
  texts before it).
\<close>

theorem Embed_order:
  "Embed env [] s = (Inr [], s) \<and>
   (\<exists>k\<le>length T.
      calls (snd (snd (Embed env T (e, w)))) = calls w @ map (embed_request e) (take k T)) \<and>
   ((\<forall>i<length T.
       \<exists>v. primitive env e (calls w @ map (embed_request e) (take i T)) (T ! i) = Inr v) \<longrightarrow>
      (\<exists>vs w'. Embed env T (e, w) = (Inr vs, (e, w')) \<and>
         length vs = length T \<and>
         calls w' = calls w @ map (embed_request e) T \<and>
         (\<forall>i<length T.
            primitive env e (calls w @ map (embed_request e) (take i T)) (T ! i) =
              Inr (vs ! i)))) \<and>
   (\<forall>vs s'. Embed env T (e, w) = (Inr vs, s') \<longrightarrow>
      fst s' = e \<and>
      calls (snd s') = calls w @ map (embed_request e) T \<and>
      length vs = length T \<and>
      (\<forall>i<length T.
         primitive env e (calls w @ map (embed_request e) (take i T)) (T ! i) = Inr (vs ! i)))"
proof -
  have empty: "Embed env [] s = (Inr [], s)" by (simp add: Embed_def)
  obtain us x where run: "primitive_run env e (calls w) T = (us, x)"
    by (cases "primitive_run env e (calls w) T")
  have "invocations (us, x) \<le> length T"
    using primitive_run_length [OF run] by (cases x) (auto simp: invocations_def)
  with Embed_char [of env T e w] run
  have prefix: "\<exists>k\<le>length T.
      calls (snd (snd (Embed env T (e, w)))) = calls w @ map (embed_request e) (take k T)"
    by auto
  have result: "\<forall>vs s'. Embed env T (e, w) = (Inr vs, s') \<longrightarrow>
      fst s' = e \<and>
      calls (snd s') = calls w @ map (embed_request e) T \<and>
      length vs = length T \<and>
      (\<forall>i<length T.
         primitive env e (calls w @ map (embed_request e) (take i T)) (T ! i) = Inr (vs ! i))"
  proof (intro allI impI)
    fix vs s' assume ok: "Embed env T (e, w) = (Inr vs, s')"
    note ch = Embed_char [of env T e w, unfolded ok run]
    from ch have x: "x = None" and us: "us = vs"
      by (cases x; simp)+
    note suc = primitive_run_success [OF run [unfolded x us]]
    from ch x us suc show "fst s' = e \<and>
      calls (snd s') = calls w @ map (embed_request e) T \<and>
      length vs = length T \<and>
      (\<forall>i<length T.
         primitive env e (calls w @ map (embed_request e) (take i T)) (T ! i) = Inr (vs ! i))"
      by (simp add: invocations_def)
  qed
  have returns: "(\<forall>i<length T.
       \<exists>v. primitive env e (calls w @ map (embed_request e) (take i T)) (T ! i) = Inr v) \<longrightarrow>
      (\<exists>vs w'. Embed env T (e, w) = (Inr vs, (e, w')) \<and>
         length vs = length T \<and>
         calls w' = calls w @ map (embed_request e) T \<and>
         (\<forall>i<length T.
            primitive env e (calls w @ map (embed_request e) (take i T)) (T ! i) =
              Inr (vs ! i)))"
  proof
    assume all: "\<forall>i<length T.
       \<exists>v. primitive env e (calls w @ map (embed_request e) (take i T)) (T ! i) = Inr v"
    from primitive_run_all_success [OF all] obtain vs where
      ok: "primitive_run env e (calls w) T = (vs, None)" ..
    from Embed_char [of env T e w] ok
    have r: "fst (Embed env T (e, w)) = Inr vs" and st: "fst (snd (Embed env T (e, w))) = e"
      by simp_all
    then have eq: "Embed env T (e, w) = (Inr vs, (e, snd (snd (Embed env T (e, w)))))"
      by (simp add: prod_eq_iff)
    from result eq have
      "length vs = length T \<and>
       calls (snd (snd (Embed env T (e, w)))) = calls w @ map (embed_request e) T \<and>
       (\<forall>i<length T.
          primitive env e (calls w @ map (embed_request e) (take i T)) (T ! i) = Inr (vs ! i))"
      by (metis snd_conv)
    with eq show "\<exists>vs w'. Embed env T (e, w) = (Inr vs, (e, w')) \<and>
         length vs = length T \<and>
         calls w' = calls w @ map (embed_request e) T \<and>
         (\<forall>i<length T.
            primitive env e (calls w @ map (embed_request e) (take i T)) (T ! i) =
              Inr (vs ! i))"
      by blast
  qed
  from empty prefix returns result show ?thesis by (intro conjI)
qed

text \<open>
  Claim C4, as amended. When the primitive fails first on the text at index \<open>i\<close>,
  \<open>Embed\<close> returns the error "failed to embed text at index i: ..." around the
  primitive's error, and no vectors. The message has the index and the primitive's
  message and nothing of the text. The requests made are those for the texts up to and
  with index \<open>i\<close>, none for a later text. The preview of the failing text is written to
  the log, in the line at level ERROR that is the last one of the call: the text if it
  has at most 50 bytes, its first 47 bytes followed by "..." otherwise, so at most 50
  bytes.
\<close>

theorem Embed_fail_fast:
  assumes "i < length T"
    and "\<forall>j<i. \<exists>v. primitive env e (calls w @ map (embed_request e) (take j T)) (T ! j) = Inr v"
    and "primitive env e (calls w @ map (embed_request e) (take i T)) (T ! i) = Inl err"
  shows "fst (Embed env T (e, w)) = Inl (Embed_at_index_failed i err) \<and>
         Error_string (Embed_at_index_failed i err) =
           ''failed to embed text at index '' @ itoa i @ '': '' @ Error_string err \<and>
         fst (snd (Embed env T (e, w))) = e \<and>
         calls (snd (snd (Embed env T (e, w)))) =
           calls w @ map (embed_request e) (take (Suc i) T) \<and>
         last (logs (snd (snd (Embed env T (e, w))))) =
           \<lparr>entry_level = ''ERROR'', entry_logger = logger_name (logger e),
            entry_msg = Msg_embed_failed,
            entry_fields = [Error_field err, Int_field ''index'' (int i),
                            String_field ''text_preview'' (getTextPreview (T ! i))]\<rparr> \<and>
         length (getTextPreview (T ! i)) \<le> 50 \<and>
         getTextPreview (T ! i) =
           (if length (T ! i) \<le> 50 then T ! i else take 47 (T ! i) @ ''...'')"
proof -
  from primitive_run_first_failure [OF assms] obtain vs where
    run: "primitive_run env e (calls w) T = (vs, Some err)" and len: "length vs = i"
    by blast
  note ch = Embed_char [of env T e w, unfolded run]
  have ne: "T \<noteq> []" using assms(1) by auto
  define w0 where "w0 = Debug (DEBUG env) (logger e) Msg_embed_start
                          [Int_field ''count'' (int (length T))] w"
  have run0: "primitive_run env e (calls w0) T = (vs, Some err)"
    using run by (simp add: w0_def Debug_calls)
  have "fst (Embed_loop env 0 T [] (e, w0)) = Inl (Embed_at_index_failed (length vs) err)"
    using Embed_loop_char [of env 0 T "[]" e w0] run0 by simp
  then obtain s2 where "Embed_loop env 0 T [] (e, w0) = (Inl (Embed_at_index_failed (length vs) err), s2)"
    by (cases "Embed_loop env 0 T [] (e, w0)") simp
  then have "snd (Embed env T (e, w)) = snd (Embed_loop env 0 T [] (e, w0))"
    using ne by (simp add: Embed_def w0_def [symmetric])
  with Embed_loop_failure_log [OF run0, of 0 "[]"] len
  have lg: "last (logs (snd (snd (Embed env T (e, w))))) =
           \<lparr>entry_level = ''ERROR'', entry_logger = logger_name (logger e),
            entry_msg = Msg_embed_failed,
            entry_fields = [Error_field err, Int_field ''index'' (int i),
                            String_field ''text_preview'' (getTextPreview (T ! i))]\<rparr>"
    by simp
  from ch len lg show ?thesis
    by (simp add: invocations_def getTextPreview_length) (simp add: getTextPreview_def)
qed


lemmas eval_defs = Embed_def embedSingle_def makeRequest_def closeResponse_def env0_def e0_def
  world0_def Debug_def Error_def log_def Let_def embed_request_def primitive_def
  getTextPreview_def long_text_def Error_field_def Int_field_def String_field_def

lemma primitive_run_append:
  "primitive_run env e h (xs @ ys) =
     (case primitive_run env e h xs of
        (vs, Some err) \<Rightarrow> (vs, Some err)
      | (vs, None) \<Rightarrow>
          (case primitive_run env e (h @ map (embed_request e) xs) ys of
             (vs', r) \<Rightarrow> (vs @ vs', r)))"
  by (induction xs arbitrary: h) (auto split: sum.splits prod.splits option.splits)

lemma chunks_Nil: "chunks n [] = []"
  by (simp add: chunks.simps)

lemma chunks_step: "xs \<noteq> [] \<Longrightarrow> 0 < n \<Longrightarrow> chunks n xs = take n xs # chunks n (drop n xs)"
  by (subst chunks.simps) simp

lemma take_min_add: "take (min n (length xs) + k) xs = take n xs @ take k (drop n xs)"
proof (cases "n \<le> length xs")
  case True
  then show ?thesis by (simp add: take_add min_def)
next
  case False
  then show ?thesis by (simp add: min_def)
qed

lemma Embed_chunks_char:
  "0 < n \<Longrightarrow>
   fst (snd (Embed_chunks env (chunks n xs) acc (e, w))) = e \<and>
   fst (Embed_chunks env (chunks n xs) acc (e, w)) =
     (case primitive_run env e (calls w) xs of
        (vs, None) \<Rightarrow> Inr (acc @ vs)
      | (vs, Some err) \<Rightarrow> Inl (Embed_at_index_failed (length vs mod n) err)) \<and>
   calls (snd (snd (Embed_chunks env (chunks n xs) acc (e, w)))) =
     calls w @ map (embed_request e) (take (invocations (primitive_run env e (calls w) xs)) xs)"
proof (induction n xs arbitrary: acc w rule: chunks.induct)
  case (1 n xs)
  show ?case
  proof (cases "xs = []")
    case True
    then show ?thesis by (simp add: chunks_Nil invocations_def)
  next
    case False
    with "1.prems" have ch: "chunks n xs = take n xs # chunks n (drop n xs)"
      by (simp add: chunks_step)
    obtain r1 w1 where first: "Embed env (take n xs) (e, w) = (r1, (e, w1))"
      using Embed_char [of env "take n xs" e w]
      by (cases "Embed env (take n xs) (e, w)") auto
    obtain vs1 x1 where run1: "primitive_run env e (calls w) (take n xs) = (vs1, x1)"
      by (cases "primitive_run env e (calls w) (take n xs)")
    note c1 = Embed_char [of env "take n xs" e w, unfolded first run1]
    note len1 = primitive_run_length [OF run1]
    have split: "primitive_run env e (calls w) xs =
        primitive_run env e (calls w) (take n xs @ drop n xs)"
      by simp
    show ?thesis
    proof (cases x1)
      case (Some err)
      with len1 have lt: "length vs1 < n" by simp
      from Some run1 have whole: "primitive_run env e (calls w) xs = (vs1, Some err)"
        by (subst split, subst primitive_run_append) simp
      have tk: "take (Suc (length vs1)) (take n xs) = take (Suc (length vs1)) xs"
        using lt by (simp add: min_def)
      from Some c1 first ch whole lt tk show ?thesis
        by (simp add: invocations_def)
    next
      case None
      with len1 have l1: "length vs1 = min n (length xs)" by (simp add: min_def)
      from None c1 have r1: "r1 = Inr vs1"
        and cw1: "calls w1 = calls w @ map (embed_request e) (take n xs)"
        using l1 by (simp_all add: invocations_def min_def)
      obtain vs2 x2 where run2: "primitive_run env e (calls w1) (drop n xs) = (vs2, x2)"
        by (cases "primitive_run env e (calls w1) (drop n xs)")
      from None run1 run2 cw1
      have whole: "primitive_run env e (calls w) xs = (vs1 @ vs2, x2)"
        by (subst split, subst primitive_run_append) simp
      have cond: "\<not> (xs = [] \<or> n = 0)" using False "1.prems" by simp
      note ih = "1.IH" [OF cond "1.prems", of "acc @ vs1" w1, unfolded run2]
      have step: "Embed_chunks env (chunks n xs) acc (e, w) =
                  Embed_chunks env (chunks n (drop n xs)) (acc @ vs1) (e, w1)"
        using ch first r1 by simp
      have tk: "take (min n (length xs) + k) xs = take n xs @ take k (drop n xs)" for k
        by (rule take_min_add)
      show ?thesis
      proof (cases x2)
        case None
        with ih step whole cw1 l1 tk [of "length vs2"] show ?thesis
          by (simp add: invocations_def)
      next
        case (Some err)
        with primitive_run_length [OF run2] have "drop n xs \<noteq> []" by auto
        then have ln: "length vs1 = n" using l1 by (simp add: min_def)
        from Some ih step whole cw1 l1 ln tk [of "Suc (length vs2)"] show ?thesis
          by (simp add: invocations_def)
      qed
    qed
  qed
qed

lemma BatchEmbed_loop_done:
  "length T \<le> i \<Longrightarrow> BatchEmbed_loop env T n i acc s = Some (Inr acc, s)"
  by (subst BatchEmbed_loop.simps) simp

lemma BatchEmbed_loop_chunks:
  "0 < n \<Longrightarrow>
   BatchEmbed_loop env T n i acc s = Some (Embed_chunks env (chunks n (drop i T)) acc s)"
proof (induction "length T - i" arbitrary: i acc s rule: less_induct)
  case less
  show ?case
  proof (cases "i < length T")
    case False
    then show ?thesis by (simp add: BatchEmbed_loop_done chunks_Nil)
  next
    case True
    then have ne: "drop i T \<noteq> []" by simp
    have batch: "take ((if length T < i + n then length T else i + n) - i) (drop i T) =
                 take n (drop i T)"
      using True by (auto simp: min_def)
    have ch: "chunks n (drop i T) = take n (drop i T) # chunks n (drop (i + n) T)"
      using ne less.prems by (simp add: chunks_step add.commute)
    have ih: "BatchEmbed_loop env T n (i + n) acc' s' =
              Some (Embed_chunks env (chunks n (drop (i + n) T)) acc' s')" for acc' s'
      using less.hyps [of "i + n" acc' s'] less.prems True by simp
    show ?thesis
      by (subst BatchEmbed_loop.simps)
         (simp add: True Let_def batch ch ih split: prod.splits sum.splits)
  qed
qed

lemma BatchEmbed_chunks:
  "BatchEmbed env T batchSize s =
     Some (Embed_chunks env (chunks (if batchSize \<le> 0 then length T else nat batchSize) T) [] s)"
proof (cases "T = []")
  case True
  then show ?thesis by (simp add: BatchEmbed_def BatchEmbed_loop_done chunks_Nil)
next
  case False
  then have "0 < (if batchSize \<le> 0 then length T else nat batchSize)" by simp
  from BatchEmbed_loop_chunks [OF this, of env T 0 "[]" s] show ?thesis
    by (simp add: BatchEmbed_def)
qed

lemma chunks_concat: "0 < n \<Longrightarrow> concat (chunks n xs) = xs"
proof (induction n xs rule: chunks.induct)
  case (1 n xs)
  then show ?case
    by (cases "xs = []") (simp_all add: chunks_Nil chunks_step)
qed

lemma chunks_bounds: "c \<in> set (chunks n xs) \<Longrightarrow> 0 < length c \<and> length c \<le> n"
proof (induction n xs rule: chunks.induct)
  case (1 n xs)
  show ?case
  proof (cases "xs = [] \<or> n = 0")
    case True
    with "1.prems" show ?thesis by (simp add: chunks.simps)
  next
    case False
    with "1.prems" "1.IH" show ?thesis
      by (auto simp: chunks_step)
  qed
qed

lemma chunks_full: "Suc k < length (chunks n xs) \<Longrightarrow> length (chunks n xs ! k) = n"
proof (induction n xs arbitrary: k rule: chunks.induct)
  case (1 n xs)
  show ?case
  proof (cases "xs = [] \<or> n = 0")
    case True
    with "1.prems" show ?thesis by (simp add: chunks.simps)
  next
    case False
    then have ch: "chunks n xs = take n xs # chunks n (drop n xs)"
      by (simp add: chunks_step)
    from "1.prems" ch have rest: "chunks n (drop n xs) \<noteq> []" by auto
    then have "drop n xs \<noteq> []" by (auto simp: chunks_Nil)
    then have full: "length (take n xs) = n" by (simp add: min_def)
    show ?thesis
    proof (cases k)
      case 0
      with ch full show ?thesis by simp
    next
      case (Suc j)
      with "1.prems" ch have "Suc j < length (chunks n (drop n xs))" by simp
      from "1.IH" [OF False this] Suc ch show ?thesis by simp
    qed
  qed
qed

lemma chunks_single:
  assumes "xs \<noteq> []" and "length xs \<le> n"
  shows "chunks n xs = [xs]"
proof -
  have "0 < n" using assms by (cases xs) auto
  with assms show ?thesis by (simp add: chunks_step chunks_Nil)
qed


lemma Embed_chunks_single: "Embed_chunks env [T] [] s = Embed env T s"
  by (simp split: prod.splits sum.splits)

text \<open>
  Claim C3, as amended. With \<open>n\<close> the batch size after the adjustment, \<open>BatchEmbed\<close>
  returns, and is \<open>Embed\<close> on each chunk of \<open>chunks n T\<close> in order. The chunks are
  consecutive parts of the texts, none empty or longer than \<open>n\<close>, all but the last of
  \<open>n\<close> texts. For a batch size of 0 or less the texts are one chunk and \<open>BatchEmbed\<close> is
  \<open>Embed\<close>, result, error, requests and log. For any batch size the requests made are
  those of \<open>Embed\<close>; when \<open>Embed\<close> returns vectors \<open>BatchEmbed\<close> returns the same vectors;
  when \<open>Embed\<close> fails at index \<open>i\<close> with an error of the primitive, \<open>BatchEmbed\<close> fails
  with the same error of the primitive at the index \<open>i mod n\<close>: the index of the text in
  its chunk, not in the whole sequence.
\<close>

theorem BatchEmbed_Embed:
  assumes n: "n = (if batchSize \<le> 0 then length T else nat batchSize)"
  shows
   "BatchEmbed env T batchSize (e, w) = Some (Embed_chunks env (chunks n T) [] (e, w)) \<and>
    concat (chunks n T) = T \<and>
    (\<forall>c \<in> set (chunks n T). 0 < length c \<and> length c \<le> n) \<and>
    (\<forall>k. Suc k < length (chunks n T) \<longrightarrow> length (chunks n T ! k) = n) \<and>
    (batchSize \<le> 0 \<longrightarrow>
       chunks n T = (if T = [] then [] else [T]) \<and>
       BatchEmbed env T batchSize (e, w) = Some (Embed env T (e, w))) \<and>
    (\<forall>vs. fst (Embed env T (e, w)) = Inr vs \<longrightarrow>
       map_option fst (BatchEmbed env T batchSize (e, w)) = Some (Inr vs)) \<and>
    (\<forall>x. fst (Embed env T (e, w)) = Inl x \<longrightarrow>
       (\<exists>i err. x = Embed_at_index_failed i err \<and>
          map_option fst (BatchEmbed env T batchSize (e, w)) =
            Some (Inl (Embed_at_index_failed (i mod n) err)))) \<and>
    map_option (\<lambda>r. calls (snd (snd r))) (BatchEmbed env T batchSize (e, w)) =
      Some (calls (snd (snd (Embed env T (e, w))))) \<and>
    map_option (\<lambda>r. fst (snd r)) (BatchEmbed env T batchSize (e, w)) = Some e"
proof -
  have batch: "BatchEmbed env T batchSize (e, w) = Some (Embed_chunks env (chunks n T) [] (e, w))"
    unfolding n by (rule BatchEmbed_chunks)
  have parts: "concat (chunks n T) = T"
  proof (cases "T = []")
    case True
    then show ?thesis by (simp add: chunks_Nil)
  next
    case False
    then have "0 < n" using n by simp
    then show ?thesis by (rule chunks_concat)
  qed
  have bounds: "\<forall>c \<in> set (chunks n T). 0 < length c \<and> length c \<le> n"
    using chunks_bounds by blast
  have full: "\<forall>k. Suc k < length (chunks n T) \<longrightarrow> length (chunks n T ! k) = n"
    using chunks_full by blast
  have one: "batchSize \<le> 0 \<longrightarrow>
       chunks n T = (if T = [] then [] else [T]) \<and>
       BatchEmbed env T batchSize (e, w) = Some (Embed env T (e, w))"
  proof
    assume "batchSize \<le> 0"
    with n have nT: "n = length T" by simp
    show "chunks n T = (if T = [] then [] else [T]) \<and>
          BatchEmbed env T batchSize (e, w) = Some (Embed env T (e, w))"
    proof (cases "T = []")
      case True
      with batch show ?thesis by (simp add: chunks_Nil Embed_def)
    next
      case False
      with nT have "chunks n T = [T]" by (simp add: chunks_single)
      with batch False show ?thesis by (simp only: Embed_chunks_single if_False simp_thms)
    qed
  qed
  obtain vs x where run: "primitive_run env e (calls w) T = (vs, x)"
    by (cases "primitive_run env e (calls w) T")
  note em = Embed_char [of env T e w, unfolded run]
  have rest: "fst (snd (Embed_chunks env (chunks n T) [] (e, w))) = e \<and>
     fst (Embed_chunks env (chunks n T) [] (e, w)) =
       (case x of None \<Rightarrow> Inr vs | Some err \<Rightarrow> Inl (Embed_at_index_failed (length vs mod n) err)) \<and>
     calls (snd (snd (Embed_chunks env (chunks n T) [] (e, w)))) =
       calls w @ map (embed_request e) (take (invocations (vs, x)) T)"
  proof (cases "T = []")
    case True
    with run show ?thesis by (auto simp: chunks_Nil invocations_def)
  next
    case False
    then have "0 < n" using n by simp
    from Embed_chunks_char [OF this, of env T "[]" e w] run show ?thesis
      by simp
  qed
  have ok: "\<forall>us. fst (Embed env T (e, w)) = Inr us \<longrightarrow>
       map_option fst (BatchEmbed env T batchSize (e, w)) = Some (Inr us)"
    using em rest batch by (cases x) auto
  have bad: "\<forall>y. fst (Embed env T (e, w)) = Inl y \<longrightarrow>
       (\<exists>i err. y = Embed_at_index_failed i err \<and>
          map_option fst (BatchEmbed env T batchSize (e, w)) =
            Some (Inl (Embed_at_index_failed (i mod n) err)))"
    using em rest batch by (cases x) auto
  have cl: "map_option (\<lambda>r. calls (snd (snd r))) (BatchEmbed env T batchSize (e, w)) =
      Some (calls (snd (snd (Embed env T (e, w)))))"
    using em rest batch by simp
  have self: "map_option (\<lambda>r. fst (snd r)) (BatchEmbed env T batchSize (e, w)) = Some e"
    using rest batch by simp
  from batch parts bounds full one ok bad cl self show ?thesis
    by (intro conjI)
qed

lemma Health_fst: "fst (snd (Health env s)) = fst s"
  by (cases s) (simp add: Health_def Let_def closeResponse_fst split: sum.splits)

lemma Health_calls:
  "calls (snd (snd (Health env s))) = calls (snd s) @ [GET (baseURL (fst s) @ ''/api/version'')]"
  by (cases s) (simp add: Health_def Let_def closeResponse_calls split: sum.splits)

lemma Embed_chunks_fst: "fst (snd (Embed_chunks env cs acc (e, w))) = e"
proof (induction cs arbitrary: acc w)
  case Nil
  show ?case by simp
next
  case (Cons c cs)
  obtain r w1 where first: "Embed env c (e, w) = (r, (e, w1))"
    using Embed_char [of env c e w] by (cases "Embed env c (e, w)") auto
  with Cons.IH show ?case by (cases r) simp_all
qed

lemma call_operation_fst:
  "\<exists>w1. call_operation env x (e, w) = Some (e, w1)"
proof (cases x)
  case (Op_Embed T)
  then show ?thesis
    using Embed_char [of env T e w] by (cases "Embed env T (e, w)") auto
next
  case (Op_EmbedSingle t)
  then show ?thesis
    using embedSingle_fst [of env t "(e, w)"]
    by (cases "embedSingle env t (e, w)") (auto simp: EmbedSingle_def)
next
  case (Op_BatchEmbed T b)
  then show ?thesis
    using Embed_chunks_fst [of env _ "[]" e w]
    by (simp add: BatchEmbed_chunks) (metis prod.collapse)
next
  case Op_Health
  then show ?thesis
    using Health_fst [of env "(e, w)"] by (cases "Health env (e, w)") auto
qed simp_all

lemma run_operations_fst: "\<exists>w1. run_operations env xs (e, w) = Some (e, w1)"
proof (induction xs arbitrary: w)
  case Nil
  show ?case by simp
next
  case (Cons x xs)
  obtain w1 where "call_operation env x (e, w) = Some (e, w1)"
    using call_operation_fst by blast
  with Cons.IH [of w1] show ?case by simp
qed

lemma primitive_dimension: "primitive env (e\<lparr>dimension := d\<rparr>) h t = primitive env e h t"
proof -
  have "fst (makeRequest env url rd (e\<lparr>dimension := d\<rparr>, w)) = fst (makeRequest env url rd (e, w))"
    for url rd w
    by (rule makeRequest_result) simp
  then show ?thesis by (simp add: primitive_def embedSingle_unfold)
qed

lemma detectDimension_char:
  "detectDimension env (e, w) = (None, (e', w')) \<Longrightarrow>
   \<exists>v. primitive env e (calls w) ''test'' = Inr v \<and> e' = e\<lparr>dimension := int (length v)\<rparr> \<and>
       calls w' = calls w @ [embed_request e ''test'']"
proof -
  assume d: "detectDimension env (e, w) = (None, (e', w'))"
  obtain w1 where step: "embedSingle env ''test'' (e, w) = (primitive env e (calls w) ''test'', (e, w1))"
    and c1: "calls w1 = calls w @ [embed_request e ''test'']"
    by (rule embedSingle_cases)
  show ?thesis
  proof (cases "primitive env e (calls w) ''test''")
    case (Inl err)
    with d step show ?thesis by (simp add: detectDimension_def)
  next
    case (Inr v)
    with d step c1 show ?thesis
      by (auto simp: detectDimension_def Let_def Debug_calls)
  qed
qed

text \<open>
  Claim C8. When \<open>NewOllamaEmbedder\<close> returns a backend, it has made two requests: the
  health probe and then one embedding request, for the text "test". The dimension of
  the backend is the length of the vector that this request returned, and the model is
  the configured one. \<open>Health\<close> returns the backend as it was, whether the probe fails
  or not, and so does every sequence of calls of \<open>Embed\<close>, \<open>EmbedSingle\<close>,
  \<open>BatchEmbed\<close>, \<open>GetDimension\<close>, \<open>GetModel\<close> and \<open>Health\<close>: each of them returns,
  and \<open>GetDimension\<close> and \<open>GetModel\<close> give the same values afterwards.
\<close>

theorem NewOllamaEmbedder_dimension:
  assumes "NewOllamaEmbedder env cfg w = (Inr e, w')"
  shows "\<exists>v.
     calls w' = calls w @ [GET (baseURL e @ ''/api/version''), embed_request e ''test''] \<and>
     baseURL e = TrimSuffix (BaseURL cfg) ''/'' \<and> model e = Model cfg \<and>
     primitive env e (calls w @ [GET (baseURL e @ ''/api/version'')]) ''test'' = Inr v \<and>
     dimension e = int (length v) \<and>
     GetDimension e = int (length v) \<and>
     GetModel e = Model cfg \<and>
     (\<forall>w2. fst (snd (Health env (e, w2))) = e) \<and>
     (\<forall>ops w2. \<exists>w3. run_operations env ops (e, w2) = Some (e, w3))"
proof -
  define emb where "emb = \<lparr>baseURL = TrimSuffix (BaseURL cfg) ''/'', model = Model cfg,
      httpClient_Timeout = Timeout cfg, dimension = 0, logger = NewLogger ''ollama-embedder''\<rparr>"
  obtain r w1 where h: "Health env (emb, w) = (r, (emb, w1))"
    using Health_fst [of env "(emb, w)"] by (cases "Health env (emb, w)") auto
  have c1: "calls w1 = calls w @ [GET (baseURL emb @ ''/api/version'')]"
    using Health_calls [of env "(emb, w)"] h by simp
  obtain r2 e2 w2 where d: "detectDimension env (emb, w1) = (r2, (e2, w2))"
    by (metis prod_cases3)
  from assms h d have r: "r = None" and r2: "r2 = None" and e: "e = e2"
    and w': "w' = Info (NewLogger ''ollama-embedder'') Msg_initialised
                   [String_field ''base_url'' (BaseURL cfg), String_field ''model'' (Model cfg),
                    Int_field ''dimension'' (dimension e2)] w2"
    by (auto simp: NewOllamaEmbedder_def Let_def emb_def [symmetric] split: option.splits)
  from detectDimension_char [OF d [unfolded r2]] obtain v where
    v: "primitive env emb (calls w1) ''test'' = Inr v"
    and e2: "e2 = emb\<lparr>dimension := int (length v)\<rparr>"
    and c2: "calls w2 = calls w1 @ [embed_request emb ''test'']"
    by blast
  have ee: "e = emb\<lparr>dimension := int (length v)\<rparr>" using e e2 by simp
  have a: "calls w' = calls w @ [GET (baseURL e @ ''/api/version''), embed_request e ''test'']"
    using w' c1 c2 ee by (simp add: Info_def log_def embed_request_def)
  have b: "primitive env e (calls w @ [GET (baseURL e @ ''/api/version'')]) ''test'' = Inr v"
    using v c1 ee by (simp add: primitive_dimension)
  have c: "baseURL e = TrimSuffix (BaseURL cfg) ''/''" "model e = Model cfg"
    "dimension e = int (length v)"
    using ee by (simp_all add: emb_def)
  from a b c show ?thesis
    using Health_fst [of env "(e, _)"] run_operations_fst [of env _ e]
    by (intro exI [of _ v]) (simp add: GetDimension_def GetModel_def)
qed


section \<open>The theorems at concrete inputs\<close>

theorem Embed_order_witness:
  "fst (Embed env0 [''a'', ''bb'', ''ccc''] (e0, world0)) =
     Inr [[1, 0, 0, 0], [2, 0, 0, 0], [3, 0, 0, 0]] \<and>
   fst (snd (Embed env0 [''a'', ''bb'', ''ccc''] (e0, world0))) = e0 \<and>
   calls (snd (snd (Embed env0 [''a'', ''bb'', ''ccc''] (e0, world0)))) =
     [POST ''http://h/api/embeddings'' (ollamaEmbedRequest ''m'' ''a''),
      POST ''http://h/api/embeddings'' (ollamaEmbedRequest ''m'' ''bb''),
      POST ''http://h/api/embeddings'' (ollamaEmbedRequest ''m'' ''ccc'')] \<and>
   primitive env0 e0
     [POST ''http://h/api/embeddings'' (ollamaEmbedRequest ''m'' ''a''),
      POST ''http://h/api/embeddings'' (ollamaEmbedRequest ''m'' ''bb'')] ''ccc'' =
     Inr [3, 0, 0, 0]"
proof -
  let ?T = "[''a'', ''bb'', ''ccc'']"
  have all: "\<forall>i<length ?T. \<exists>v. primitive env0 e0
      (calls world0 @ map (embed_request e0) (take i ?T)) (?T ! i) = Inr v"
    by (simp add: All_less_Suc eval_defs)
  note t = Embed_order [where env = env0 and T = ?T and e = e0 and w = world0,
      THEN conjunct2, THEN conjunct2, THEN conjunct1, THEN mp, OF all]
  from t obtain vs w' where eq: "Embed env0 ?T (e0, world0) = (Inr vs, (e0, w'))"
    and len: "length vs = length ?T"
    and c: "calls w' = calls world0 @ map (embed_request e0) ?T"
    and each: "\<forall>i<length ?T. primitive env0 e0
      (calls world0 @ map (embed_request e0) (take i ?T)) (?T ! i) = Inr (vs ! i)"
    by blast
  from each have p0: "primitive env0 e0
      (calls world0 @ map (embed_request e0) (take 0 ?T)) (?T ! 0) = Inr (vs ! 0)"
    by (rule allE [of _ 0]) simp
  from each have p1: "primitive env0 e0
      (calls world0 @ map (embed_request e0) (take 1 ?T)) (?T ! 1) = Inr (vs ! 1)"
    by (rule allE [of _ 1]) simp
  from each have p2: "primitive env0 e0
      (calls world0 @ map (embed_request e0) (take 2 ?T)) (?T ! 2) = Inr (vs ! 2)"
    by (rule allE [of _ 2]) simp
  from p0 have v0: "vs ! 0 = [1, 0, 0, 0]" by (simp add: eval_defs)
  from p1 have v1: "vs ! 1 = [2, 0, 0, 0]" by (simp add: eval_defs)
  from p2 have v2: "vs ! 2 = [3, 0, 0, 0]" by (simp add: eval_defs)
  from len obtain x y z where xyz: "vs = [x, y, z]"
    by (cases vs; cases "tl vs"; cases "tl (tl vs)") auto
  with v0 v1 v2 have vs: "vs = [[1, 0, 0, 0], [2, 0, 0, 0], [3, 0, 0, 0]]" by simp
  from eq vs have a: "fst (Embed env0 ?T (e0, world0)) =
      Inr [[1, 0, 0, 0], [2, 0, 0, 0], [3, 0, 0, 0]]"
    by simp
  from eq have b: "fst (snd (Embed env0 ?T (e0, world0))) = e0" by simp
  from eq c have c': "calls (snd (snd (Embed env0 ?T (e0, world0)))) =
     [POST ''http://h/api/embeddings'' (ollamaEmbedRequest ''m'' ''a''),
      POST ''http://h/api/embeddings'' (ollamaEmbedRequest ''m'' ''bb''),
      POST ''http://h/api/embeddings'' (ollamaEmbedRequest ''m'' ''ccc'')]"
    by (simp add: embed_request_def e0_def world0_def)
  from p2 v2 have p: "primitive env0 e0
     [POST ''http://h/api/embeddings'' (ollamaEmbedRequest ''m'' ''a''),
      POST ''http://h/api/embeddings'' (ollamaEmbedRequest ''m'' ''bb'')] ''ccc'' =
     Inr [3, 0, 0, 0]"
    by (simp add: embed_request_def e0_def world0_def)
  from a b c' p show ?thesis by (intro conjI)
qed

theorem Embed_fail_fast_witness:
  "fst (Embed env0 [''a'', ''bad'', ''c''] (e0, world0)) =
     Inl (Embed_at_index_failed 1 (Embed_text_failed (External ''connection refused''))) \<and>
   calls (snd (snd (Embed env0 [''a'', ''bad'', ''c''] (e0, world0)))) =
     [POST ''http://h/api/embeddings'' (ollamaEmbedRequest ''m'' ''a''),
      POST ''http://h/api/embeddings'' (ollamaEmbedRequest ''m'' ''bad'')] \<and>
   last (logs (snd (snd (Embed env0 [''a'', ''bad'', ''c''] (e0, world0))))) =
     \<lparr>entry_level = ''ERROR'', entry_logger = ''ollama-embedder'',
      entry_msg = Msg_embed_failed,
      entry_fields =
        [Error_field (Embed_text_failed (External ''connection refused'')),
         Int_field ''index'' 1, String_field ''text_preview'' ''bad'']\<rparr>"
proof -
  let ?T = "[''a'', ''bad'', ''c'']"
  have h1: "(1::nat) < length ?T" by simp
  have h2: "\<forall>j<1. \<exists>v. primitive env0 e0
      (calls world0 @ map (embed_request e0) (take j ?T)) (?T ! j) = Inr v"
    by (simp add: eval_defs)
  have h3: "primitive env0 e0 (calls world0 @ map (embed_request e0) (take 1 ?T)) (?T ! 1) =
      Inl (Embed_text_failed (External ''connection refused''))"
    by (simp add: eval_defs)
  from Embed_fail_fast [OF h1 h2 h3] show ?thesis
    by (simp add: embed_request_def e0_def world0_def getTextPreview_def)
qed

text \<open>
  The claim C4 as it stands has the preview of the failing text in the returned error.
  It does not hold: for a failing text of 64 bytes at index 2 the error's message has
  the index and the primitive's message, and the preview (47 bytes and "...") is not a
  part of it.
\<close>

theorem Embed_fail_fast_counterexample:
  "fst (Embed env0 [''a'', ''bb'', long_text] (e0, world0)) =
     Inl (Embed_at_index_failed 2 (Embed_text_failed (HTTP_error 413 ''too large''))) \<and>
   Error_string (Embed_at_index_failed 2 (Embed_text_failed (HTTP_error 413 ''too large''))) =
     ''failed to embed text at index 2: failed to embed text: HTTP 413: too large'' \<and>
   getTextPreview long_text = ''01234567890123456789012345678901234567890123456...'' \<and>
   \<not> sublist (getTextPreview long_text)
        (Error_string
           (Embed_at_index_failed 2 (Embed_text_failed (HTTP_error 413 ''too large''))))"
proof -
  have a: "fst (Embed env0 [''a'', ''bb'', long_text] (e0, world0)) =
     Inl (Embed_at_index_failed 2 (Embed_text_failed (HTTP_error 413 ''too large'')))"
    by (simp add: eval_defs)
  have b: "Error_string
      (Embed_at_index_failed 2 (Embed_text_failed (HTTP_error 413 ''too large''))) =
     ''failed to embed text at index 2: failed to embed text: HTTP 413: too large''"
    by (simp add: itoa.simps)
  have c: "getTextPreview long_text = ''01234567890123456789012345678901234567890123456...''"
    by (simp add: eval_defs)
  have d: "\<not> sublist ''01234567890123456789012345678901234567890123456...''
     ''failed to embed text at index 2: failed to embed text: HTTP 413: too large''"
    by code_simp
  from a b c d show ?thesis by (simp only: simp_thms)
qed

theorem BatchEmbed_Embed_witness:
  "map_option fst (BatchEmbed env0 [''a'', ''bb'', ''ccc''] 2 (e0, world0)) =
     Some (Inr [[1, 0, 0, 0], [2, 0, 0, 0], [3, 0, 0, 0]]) \<and>
   chunks 2 [''a'', ''bb'', ''ccc''] = [[''a'', ''bb''], [''ccc'']] \<and>
   BatchEmbed env0 [''a'', ''bb'', ''bad''] (- 1) (e0, world0) =
     Some (Embed env0 [''a'', ''bb'', ''bad''] (e0, world0)) \<and>
   BatchEmbed env0 [''a'', ''bb'', ''bad''] 0 (e0, world0) =
     Some (Embed env0 [''a'', ''bb'', ''bad''] (e0, world0))"
proof -
  let ?T = "[''a'', ''bb'', ''ccc'']"
  let ?U = "[''a'', ''bb'', ''bad'']"
  have n2: "(2::nat) = (if (2::int) \<le> 0 then length ?T else nat 2)" by simp
  have n3: "(3::nat) = (if (- 1::int) \<le> 0 then length ?U else nat (- 1))" by simp
  have n0: "(3::nat) = (if (0::int) \<le> 0 then length ?U else nat 0)" by simp
  have ev: "fst (Embed env0 ?T (e0, world0)) = Inr [[1, 0, 0, 0], [2, 0, 0, 0], [3, 0, 0, 0]]"
    by (simp add: eval_defs)
  from BatchEmbed_Embed [OF n2, of env0 e0 world0] ev
  have a: "map_option fst (BatchEmbed env0 ?T 2 (e0, world0)) =
     Some (Inr [[1, 0, 0, 0], [2, 0, 0, 0], [3, 0, 0, 0]])"
    by blast
  have b: "chunks 2 ?T = [[''a'', ''bb''], [''ccc'']]"
    by (simp add: chunks.simps)
  have le1: "(- 1::int) \<le> 0" and le0: "(0::int) \<le> 0" by simp_all
  from BatchEmbed_Embed [OF n3, of env0 e0 world0] le1
  have c: "BatchEmbed env0 ?U (- 1) (e0, world0) = Some (Embed env0 ?U (e0, world0))"
    by blast
  from BatchEmbed_Embed [OF n0, of env0 e0 world0] le0
  have d: "BatchEmbed env0 ?U 0 (e0, world0) = Some (Embed env0 ?U (e0, world0))"
    by blast
  from a b c d show ?thesis by (intro conjI)
qed

text \<open>
  The claim C3 as it stands has \<open>BatchEmbed\<close> fail as \<open>Embed\<close> does. It does not hold:
  with a batch size of 2 and a primitive that fails on the third text, \<open>Embed\<close> names
  the index 2 and \<open>BatchEmbed\<close> the index 0.
\<close>

theorem BatchEmbed_Embed_counterexample:
  "fst (Embed env0 [''a'', ''bb'', ''bad''] (e0, world0)) =
     Inl (Embed_at_index_failed 2 (Embed_text_failed (External ''connection refused''))) \<and>
   map_option fst (BatchEmbed env0 [''a'', ''bb'', ''bad''] 2 (e0, world0)) =
     Some (Inl (Embed_at_index_failed 0 (Embed_text_failed (External ''connection refused'')))) \<and>
   map_option fst (BatchEmbed env0 [''a'', ''bb'', ''bad''] 2 (e0, world0)) \<noteq>
     Some (fst (Embed env0 [''a'', ''bb'', ''bad''] (e0, world0)))"
proof -
  have a: "fst (Embed env0 [''a'', ''bb'', ''bad''] (e0, world0)) =
     Inl (Embed_at_index_failed 2 (Embed_text_failed (External ''connection refused'')))"
    by (simp add: eval_defs)
  have b: "map_option fst (BatchEmbed env0 [''a'', ''bb'', ''bad''] 2 (e0, world0)) =
     Some (Inl (Embed_at_index_failed 0 (Embed_text_failed (External ''connection refused''))))"
    by (simp add: BatchEmbed_chunks chunks.simps eval_defs)
  have c: "map_option fst (BatchEmbed env0 [''a'', ''bb'', ''bad''] 2 (e0, world0)) \<noteq>
     Some (fst (Embed env0 [''a'', ''bb'', ''bad''] (e0, world0)))"
    unfolding a b by simp
  from a b c show ?thesis by (intro conjI)
qed

theorem NewOllamaEmbedder_dimension_witness:
  "fst (NewOllamaEmbedder env0 ((DefaultConfig Map.empty)\<lparr>BaseURL := ''http://h/'', Model := ''m''\<rparr> :: unit Config)
          world0) = Inr e0 \<and>
   calls (snd (NewOllamaEmbedder env0
            ((DefaultConfig Map.empty)\<lparr>BaseURL := ''http://h/'', Model := ''m''\<rparr> :: unit Config) world0)) =
     [GET ''http://h/api/version'',
      POST ''http://h/api/embeddings'' (ollamaEmbedRequest ''m'' ''test'')] \<and>
   GetDimension e0 = 4 \<and>
   fst (Health (env0\<lparr>transport := (\<lambda>h r. Inl ''connection refused'')\<rparr>) (e0, world0)) =
     Some (External ''connection refused'') \<and>
   fst (snd (Health (env0\<lparr>transport := (\<lambda>h r. Inl ''connection refused'')\<rparr>) (e0, world0))) = e0"
proof -
  let ?cfg = "(DefaultConfig Map.empty)\<lparr>BaseURL := ''http://h/'', Model := ''m''\<rparr> :: unit Config"
  have ev: "NewOllamaEmbedder env0 ?cfg world0 = (Inr e0, snd (NewOllamaEmbedder env0 ?cfg world0))"
    by (simp add: prod_eq_iff NewOllamaEmbedder_def Health_def detectDimension_def TrimSuffix_def
        DefaultConfig_def NewLogger_def eval_defs)
  from NewOllamaEmbedder_dimension [OF ev] obtain v where
    c: "calls (snd (NewOllamaEmbedder env0 ?cfg world0)) =
          calls world0 @ [GET (baseURL e0 @ ''/api/version''), embed_request e0 ''test'']"
    and d: "GetDimension e0 = int (length v)"
    and p: "primitive env0 e0 (calls world0 @ [GET (baseURL e0 @ ''/api/version'')]) ''test'' = Inr v"
    and h: "\<forall>w2. fst (snd (Health env0 (e0, w2))) = e0"
    by blast
  from p have "v = [4, 0, 0, 0]" by (simp add: eval_defs)
  with d have d4: "GetDimension e0 = 4" by simp
  have f: "fst (Health (env0\<lparr>transport := (\<lambda>h r. Inl ''connection refused'')\<rparr>) (e0, world0)) =
     Some (External ''connection refused'')"
    by (simp add: Health_def eval_defs)
  have g: "fst (snd (Health (env0\<lparr>transport := (\<lambda>h r. Inl ''connection refused'')\<rparr>) (e0, world0))) = e0"
    by (simp add: Health_def eval_defs)
  from ev have a: "fst (NewOllamaEmbedder env0 ?cfg world0) = Inr e0"
    by (metis fst_conv)
  from c have c': "calls (snd (NewOllamaEmbedder env0 ?cfg world0)) =
     [GET ''http://h/api/version'',
      POST ''http://h/api/embeddings'' (ollamaEmbedRequest ''m'' ''test'')]"
    by (simp add: embed_request_def e0_def world0_def)
  from a c' d4 f g show ?thesis by (intro conjI)
qed


end
